theory Spec2Isabelle
  imports Complex_Main
begin

section \<open>JavaScript values used by \<open>js/script.js\<close>\<close>

text \<open>
  A JavaScript string is a sequence of UTF-16 code units; the program's texts contain
  characters outside ASCII, so a string is modelled as the list of its code units.
  Identifiers of DOM nodes and storage keys are ASCII literals of the source and stay
  Isabelle strings.
\<close>

type_synonym jsstring = "nat list"

definition ascii :: "string \<Rightarrow> jsstring" where
  "ascii s = map of_char s"

text \<open>
  A JavaScript Number is an IEEE double. The program only ever holds \<open>NaN\<close> and
  integer-valued doubles in \<open>this.count\<close>, so a number is \<open>NaN\<close> or \<open>Num v\<close>, the double
  whose value is the integer \<open>v\<close>. Integers up to magnitude \<open>2 ^ 53\<close> are doubles; a larger
  integer is rounded to the nearest double, ties to the even significand
  (\<open>to_double\<close>, with \<open>2 ^ 53 = 9007199254740992\<close>). Infinities (magnitude \<open>2 ^ 1024\<close> and above) and the sign of zero are
  not represented.
\<close>

datatype jsnum = NaN | Num int

function expo :: "int \<Rightarrow> nat" where
  "expo a = (if a < 9007199254740992 then 0 else Suc (expo (a div 2)))"
  by pat_completeness auto
termination
  by (relation "measure (\<lambda>a. nat a)") auto

declare expo.simps [simp del]

definition to_double :: "int \<Rightarrow> int" where
  "to_double n =
     (let a = \<bar>n\<bar>; e = expo a in
      if e = 0 then n
      else
        let q = a div 2 ^ e; r = a mod 2 ^ e; h = 2 ^ (e - 1);
            q' = (if h < r \<or> (r = h \<and> odd q) then q + 1 else q)
        in sgn n * (q' * 2 ^ e))"

text \<open>
  Numbers that are not integers (pointer and box coordinates, the draws of
  \<open>Math.random()\<close>) are reals that are doubles. Every finite double is a multiple of
  \<open>2 ^ - 1074\<close>, and so is every sum, difference and product of doubles that the program
  forms; half a double is a multiple of \<open>2 ^ - 1075\<close>. \<open>fl x\<close> is the double nearest to
  such an \<open>x\<close>, ties to the even significand: the result of the JavaScript operation
  whose exact result is \<open>x\<close>. Results of magnitude \<open>2 ^ 1024\<close> and above (infinities) are
  not represented.
\<close>

definition scale :: nat where
  "scale = 1074"

definition rne :: "real \<Rightarrow> int" where
  "rne x =
     (let f = \<lfloor>x\<rfloor>; d = x - of_int f in
      if d < 1 / 2 then f else if 1 / 2 < d then f + 1 else if even f then f else f + 1)"

definition fl :: "real \<Rightarrow> real" where
  "fl x = of_int (to_double (rne (x * 2 ^ scale))) / 2 ^ scale"

text \<open>\<open>this.count++\<close>: the old value plus one, as a double.\<close>

definition js_incr :: "jsnum \<Rightarrow> jsnum" where
  "js_incr x = (case x of NaN \<Rightarrow> NaN | Num v \<Rightarrow> Num (to_double (v + 1)))"

text \<open>The mathematical sum of a number and a count of interactions.\<close>

definition js_plus :: "jsnum \<Rightarrow> nat \<Rightarrow> jsnum" where
  "js_plus x n = (case x of NaN \<Rightarrow> NaN | Num v \<Rightarrow> Num (v + int n))"

subsection \<open>\<open>parseInt(string)\<close> with no radix argument\<close>

definition isStrWhiteSpaceChar :: "nat \<Rightarrow> bool" where
  "isStrWhiteSpaceChar c =
     (c \<in> {9, 10, 11, 12, 13, 32, 160, 5760, 8232, 8233, 8239, 8287, 12288, 65279}
      \<or> (8192 \<le> c \<and> c \<le> 8202))"

definition digitValue :: "nat \<Rightarrow> nat option" where
  "digitValue c =
     (if 48 \<le> c \<and> c \<le> 57 then Some (c - 48)
      else if 97 \<le> c \<and> c \<le> 122 then Some (c - 87)
      else if 65 \<le> c \<and> c \<le> 90 then Some (c - 55)
      else None)"

definition radixDigit :: "nat \<Rightarrow> nat \<Rightarrow> bool" where
  "radixDigit R c = (case digitValue c of Some d \<Rightarrow> d < R | None \<Rightarrow> False)"

definition mathInt :: "nat \<Rightarrow> jsstring \<Rightarrow> int" where
  "mathInt R Z = foldl (\<lambda>acc c. acc * int R + int (the (digitValue c))) 0 Z"

definition parseInt :: "jsstring \<Rightarrow> jsnum" where
  "parseInt inputString =
     (let S = dropWhile isStrWhiteSpaceChar inputString;
          sign = (if S \<noteq> [] \<and> hd S = 45 then - 1 else 1);
          S1 = (if S \<noteq> [] \<and> (hd S = 43 \<or> hd S = 45) then tl S else S);
          hex = (2 \<le> length S1 \<and> hd S1 = 48 \<and> (S1 ! 1 = 120 \<or> S1 ! 1 = 88));
          R = (if hex then 16 else 10);
          S2 = (if hex then drop 2 S1 else S1);
          Z = takeWhile (radixDigit R) S2
      in if Z = [] then NaN else Num (to_double (sign * mathInt R Z)))"

subsection \<open>Number to string\<close>

function decimal :: "int \<Rightarrow> jsstring" where
  "decimal n =
     (if n < 10 then [nat (48 + n)] else decimal (n div 10) @ [nat (48 + n mod 10)])"
  by pat_completeness auto
termination
  by (relation "measure (\<lambda>n. nat n)") auto

declare decimal.simps [simp del]

text \<open>
  \<open>ToString\<close> of a number, as \<open>localStorage.setItem\<close> and template literals apply it:
  decimal digits for an integer of magnitude below \<open>10 ^ 21\<close>, \<open>"NaN"\<close> for \<open>NaN\<close>.
\<close>

definition js_toString :: "jsnum \<Rightarrow> jsstring" where
  "js_toString x =
     (case x of
        NaN \<Rightarrow> ascii ''NaN''
      | Num v \<Rightarrow> (if v < 0 then 45 # decimal (- v) else decimal v))"

text \<open>\<open>toLocaleString('en-US')\<close>: the digits in groups of three, separated by commas.\<close>

fun group3 :: "jsstring \<Rightarrow> jsstring" where
  "group3 (a # b # c # d # ds) = a # b # c # 44 # group3 (d # ds)"
| "group3 ds = ds"

definition toLocaleString_enUS :: "jsnum \<Rightarrow> jsstring" where
  "toLocaleString_enUS x =
     (case x of
        NaN \<Rightarrow> ascii ''NaN''
      | Num v \<Rightarrow>
          (let ds = rev (group3 (rev (decimal \<bar>v\<bar>)))
           in if v < 0 then 45 # ds else ds))"

section \<open>Configuration (\<open>GAME_CONFIG\<close>)\<close>

text \<open>
  A text entry is a fixed string or an array of variants. The texts are given by their
  UTF-16 code units; the comment beside each spells the ASCII part.
\<close>

datatype content = Fixed jsstring | Variants "jsstring list"

record config =
  audioList :: "jsstring list"
  texts :: "string \<Rightarrow> content option"
  preloadImages :: "jsstring list"

definition GAME_CONFIG_texts :: "string \<Rightarrow> content option" where
  "GAME_CONFIG_texts key =
     (if key = ''page-title'' then Some (Fixed (ascii ''Welcome to Aris''))
      else if key = ''doc-title'' then Some (Fixed [37030, 21345, 21345, 37030])
      else if key = ''page-descriptions'' then
        Some (Fixed [32473, 29233, 20029, 19997, 37233, 20889, 30340, 23567, 32593, 31449,
          65292, 23545, 65292, 23601, 26159, 37027, 20010, 26368, 21487, 29233, 30340,
          12298, 34074, 34013, 26723, 26696, 12299, 35282, 33394, 65281])
      else if key = ''counter-descriptions'' then
        Some (Variants
          [[29233, 20029, 19997, 24050, 32463, 8220, 37030, 21345, 21345, 37030, 65281,
            8221, 20102],
           [29233, 20029, 19997, 24050, 32463, 25671, 20102]])
      else if key = ''counter-unit'' then Some (Variants [[27425], [27425]])
      else if key = ''counter-button'' then
        Some (Variants
          [[37030, 21345, 21345, 37030, 65281], ascii ''SenSei'' @ [65281]])
      else None)"

definition GAME_CONFIG :: config where
  "GAME_CONFIG =
     \<lparr> audioList = [ascii ''audio/1.mp3'', ascii ''audio/2.mp3''],
       texts = GAME_CONFIG_texts,
       preloadImages = [ascii ''img/arisu1.gif'', ascii ''img/arisu2.gif''] \<rparr>"

text \<open>
  \<open>Math.floor(Math.random() * n)\<close>. The draw \<open>r\<close> of \<open>Math.random()\<close> is a parameter
  of every function that draws; \<open>Math.random\<close> returns a number in \<open>[0, 1)\<close>. The product
  and the floor are taken over the reals, which is what the doubles give for the arrays
  of two entries of \<open>GAME_CONFIG.texts\<close>: doubling a double is exact.
\<close>

definition random_index :: "real \<Rightarrow> nat \<Rightarrow> nat" where
  "random_index r n = nat \<lfloor>r * real n\<rfloor>"

text \<open>
  The same over the doubles, for an array of any length: the product is rounded to a
  double before the floor. A double in \<open>[0, 1)\<close> is \<open>m / 2 ^ j\<close> for a significand \<open>m\<close> of
  at most 53 bits; \<open>is_random\<close> says that a pair \<open>(m, j)\<close> stands for one.
\<close>

definition floor_random :: "real \<Rightarrow> nat \<Rightarrow> nat" where
  "floor_random r n = nat \<lfloor>fl (r * real n)\<rfloor>"



section \<open>The resource manager\<close>

text \<open>
  A function that may throw returns a completion: the state it reached, and whether it
  returned or threw there.
\<close>

datatype 's completion = Returned 's | Threw 's

fun state_of :: "'s completion \<Rightarrow> 's" where
  "state_of (Returned s) = s"
| "state_of (Threw s) = s"

fun and_then :: "'s completion \<Rightarrow> ('s \<Rightarrow> 's completion) \<Rightarrow> 's completion" where
  "and_then (Returned s) f = f s"
| "and_then (Threw s) f = Threw s"

datatype promise = Pending | Fulfilled | Rejected

text \<open>
  What one audio task's \<open>try\<close> block comes to. It completes and pushes
  \<open>reader.result\<close>: the Base64 string, or \<open>null\<close> (\<open>None\<close>) when the \<open>FileReader\<close> could not
  read the blob, since \<open>_blobToBase64\<close> resolves on \<open>loadend\<close> whether the read succeeded
  or not. Or it throws (a rejected \<open>fetch\<close> or \<open>blob()\<close>) and \<open>catch\<close> logs the failure.
\<close>

datatype outcome = Pushed "jsstring option" | Failed

datatype io = Fetch jsstring | ImageSrc jsstring | ConsoleError jsstring | Progress nat nat

record ResourceManager =
  audioCache :: "jsstring option list"
  isReady :: bool

definition ResourceManager_new :: ResourceManager where
  "ResourceManager_new = \<lparr> audioCache = [], isReady = False \<rparr>"

text \<open>
  One call of \<open>loadAll\<close>: the manager it runs on (\<open>this\<close>), its local variables, the
  promise of each audio task, the promise \<open>loadAll\<close> returned, and the trace of what the
  call did to the outside (fetches, image requests, console errors, calls of
  \<open>onProgress\<close> with their arguments).
\<close>

record loadAll_call =
  this :: ResourceManager
  loadedCount :: nat
  total :: nat
  audioTasks :: "promise list"
  result :: promise
  trace :: "io list"

text \<open>
  \<open>await Promise.all(audioTasks); this.isReady = true\<close>: the returned promise rejects
  with the first rejected task, and is fulfilled, after the flag is set, once every
  task is fulfilled.
\<close>

definition join :: "loadAll_call \<Rightarrow> loadAll_call" where
  "join c =
     (if result c \<noteq> Pending then c
      else if Rejected \<in> set (audioTasks c) then c\<lparr>result := Rejected\<rparr>
      else if list_all (\<lambda>t. t = Fulfilled) (audioTasks c)
        then c\<lparr>this := (this c)\<lparr>isReady := True\<rparr>, result := Fulfilled\<rparr>
      else c)"

text \<open>
  The synchronous part of \<open>loadAll\<close>: every audio task runs up to its \<open>fetch\<close>, every
  image is requested, and the call waits.
\<close>

definition loadAll :: "config \<Rightarrow> ResourceManager \<Rightarrow> loadAll_call" where
  "loadAll cfg m =
     join \<lparr> this = m, loadedCount = 0, total = length (audioList cfg),
            audioTasks = replicate (length (audioList cfg)) Pending,
            result = Pending,
            trace = map Fetch (audioList cfg) @ map ImageSrc (preloadImages cfg) \<rparr>"

text \<open>
  The rest of audio task \<open>i\<close>, run when its \<open>try\<close> block has come to \<open>oc\<close>: push or log,
  then \<open>finally\<close> counts and calls \<open>onProgress\<close> if one was given. The callback works on
  a state \<open>w\<close> of its own and may throw, which rejects the task. A task settles once.
\<close>

definition audioTask ::
  "config \<Rightarrow> (nat \<Rightarrow> nat \<Rightarrow> 'w \<Rightarrow> 'w completion) option \<Rightarrow> nat \<Rightarrow> outcome \<Rightarrow>
   loadAll_call \<times> 'w \<Rightarrow> loadAll_call \<times> 'w" where
  "audioTask cfg onProgress i oc cw =
     (let c = fst cw; w = snd cw in
      if \<not> (i < length (audioTasks c) \<and> i < length (audioList cfg)) then cw
      else if audioTasks c ! i \<noteq> Pending then cw
      else
        let c1 = (case oc of
                    Pushed base64 \<Rightarrow>
                      c\<lparr>this := (this c)\<lparr>audioCache := audioCache (this c) @ [base64]\<rparr>\<rparr>
                  | Failed \<Rightarrow> c\<lparr>trace := trace c @ [ConsoleError (audioList cfg ! i)]\<rparr>);
            c2 = c1\<lparr>loadedCount := loadedCount c1 + 1\<rparr>
        in case onProgress of
             None \<Rightarrow> (join (c2\<lparr>audioTasks := (audioTasks c2)[i := Fulfilled]\<rparr>), w)
           | Some f \<Rightarrow>
               (let c3 = c2\<lparr>trace := trace c2 @ [Progress (loadedCount c2) (total c2)]\<rparr>
                in case f (loadedCount c2) (total c2) w of
                     Returned w' \<Rightarrow>
                       (join (c3\<lparr>audioTasks := (audioTasks c3)[i := Fulfilled]\<rparr>), w')
                   | Threw w' \<Rightarrow>
                       (join (c3\<lparr>audioTasks := (audioTasks c3)[i := Rejected]\<rparr>), w')))"

text \<open>
  An image request that completes or fails: the source registers no handler on the
  \<open>Image\<close>, so nothing of the call changes.
\<close>

definition imageDone :: "nat \<Rightarrow> bool \<Rightarrow> loadAll_call \<times> 'w \<Rightarrow> loadAll_call \<times> 'w" where
  "imageDone j ok cw = cw"

text \<open>\<open>getRandomAudio\<close> returns \<open>null\<close>, an element of the cache (a string, or the
  \<open>null\<close> a failed read left there), or \<open>undefined\<close> from a read past the end of the
  array.\<close>

datatype audio = Null | Undefined | Payload jsstring

fun entry_audio :: "jsstring option \<Rightarrow> audio" where
  "entry_audio None = Null"
| "entry_audio (Some b) = Payload b"

definition getRandomAudio :: "ResourceManager \<Rightarrow> real \<Rightarrow> audio" where
  "getRandomAudio m r =
     (if length (audioCache m) = 0 then Null
      else
        let idx = floor_random r (length (audioCache m))
        in if idx < length (audioCache m) then entry_audio (audioCache m ! idx)
           else Undefined)"

subsection \<open>A batch as a sequence of completions\<close>

text \<open>
  The network decides when each request completes. A schedule lists the completions in
  the order they happen: audio task \<open>i\<close> coming to an outcome, or image \<open>j\<close> loading or
  failing. \<open>run_loadAll\<close> runs a \<open>loadAll\<close> call through a schedule.
\<close>

datatype settle = AudioSettles nat outcome | ImageSettles nat bool

fun run_loadAll ::
  "config \<Rightarrow> (nat \<Rightarrow> nat \<Rightarrow> 'w \<Rightarrow> 'w completion) option \<Rightarrow> settle list \<Rightarrow>
   loadAll_call \<times> 'w \<Rightarrow> loadAll_call \<times> 'w" where
  "run_loadAll cfg onProgress [] cw = cw"
| "run_loadAll cfg onProgress (AudioSettles i oc # es) cw =
     run_loadAll cfg onProgress es (audioTask cfg onProgress i oc cw)"
| "run_loadAll cfg onProgress (ImageSettles j ok # es) cw =
     run_loadAll cfg onProgress es (imageDone j ok cw)"

text \<open>
  What a schedule holds: the audio tasks that settle, what they push, the strings among
  that, and their failures.
\<close>

fun audio_settled :: "settle list \<Rightarrow> nat list" where
  "audio_settled [] = []"
| "audio_settled (AudioSettles i oc # es) = i # audio_settled es"
| "audio_settled (ImageSettles j ok # es) = audio_settled es"

fun pushed_results :: "settle list \<Rightarrow> jsstring option list" where
  "pushed_results [] = []"
| "pushed_results (AudioSettles i (Pushed x) # es) = x # pushed_results es"
| "pushed_results (e # es) = pushed_results es"



fun failed_tasks :: "settle list \<Rightarrow> nat list" where
  "failed_tasks [] = []"
| "failed_tasks (AudioSettles i Failed # es) = i # failed_tasks es"
| "failed_tasks (e # es) = failed_tasks es"

fun is_audio :: "settle \<Rightarrow> bool" where
  "is_audio (AudioSettles i oc) = True"
| "is_audio (ImageSettles j ok) = False"


text \<open>What a trace holds: the calls of \<open>onProgress\<close> and the logged failures.\<close>

fun progress_calls :: "io list \<Rightarrow> (nat \<times> nat) list" where
  "progress_calls [] = []"
| "progress_calls (Progress k n # t) = (k, n) # progress_calls t"
| "progress_calls (e # t) = progress_calls t"

fun console_errors :: "io list \<Rightarrow> jsstring list" where
  "console_errors [] = []"
| "console_errors (ConsoleError u # t) = u # console_errors t"
| "console_errors (e # t) = console_errors t"

fun returned :: "'s completion \<Rightarrow> bool" where
  "returned (Returned s) = True"
| "returned (Threw s) = False"

text \<open>
  Whether \<open>onProgress\<close> returned normally each time it was called in the run of a
  schedule: it is called once for each audio task that settles, with the count and the
  state of that moment.
\<close>

fun calls_returned ::
  "config \<Rightarrow> (nat \<Rightarrow> nat \<Rightarrow> 'w \<Rightarrow> 'w completion) \<Rightarrow> settle list \<Rightarrow>
   loadAll_call \<times> 'w \<Rightarrow> bool" where
  "calls_returned cfg f [] cw = True"
| "calls_returned cfg f (AudioSettles i oc # es) cw =
     ((if i < length (audioTasks (fst cw)) \<and> i < length (audioList cfg)
          \<and> audioTasks (fst cw) ! i = Pending
       then returned (f (loadedCount (fst cw) + 1) (total (fst cw)) (snd cw)) else True)
      \<and> calls_returned cfg f es (audioTask cfg (Some f) i oc cw))"
| "calls_returned cfg f (ImageSettles j ok # es) cw =
     calls_returned cfg f es (imageDone j ok cw)"

text \<open>
  Two \<open>loadAll\<close> calls that are as far as each other: the same count, the same promises,
  the same readiness and the same calls of \<open>onProgress\<close>.
\<close>

definition same_progress :: "loadAll_call \<Rightarrow> loadAll_call \<Rightarrow> bool" where
  "same_progress c c' =
     (loadedCount c = loadedCount c' \<and> total c = total c' \<and> audioTasks c = audioTasks c'
      \<and> result c = result c' \<and> isReady (this c) = isReady (this c')
      \<and> progress_calls (trace c) = progress_calls (trace c'))"

section \<open>The game controller (\<open>ArisGame\<close>)\<close>

type_synonym elem = nat

record text_handles =
  title :: "elem option"
  desc :: "elem option"
  ctDesc :: "elem option"
  ctUnit :: "elem option"

text \<open>
  \<open>this.elements\<close>. The object literal \<open>{}\<close> the controller starts with has no field:
  its handles are absent and its \<open>texts\<close> is \<open>undefined\<close> (\<open>None\<close>).
\<close>

record handles =
  btn :: "elem option"
  counter :: "elem option"
  loading :: "elem option"
  texts_of :: "text_handles option"

record rect =
  left :: real
  top :: real
  width :: real
  height :: real

record pointer_event =
  clientX :: real
  clientY :: real

record ripple =
  style_width :: real
  style_height :: real
  style_left :: real
  style_top :: real
  classList :: "string list"

text \<open>The draws of \<open>Math.random()\<close> that one handler may make, one for each place.\<close>

record draws =
  r_button :: real
  r_descriptions :: real
  r_unit :: real
  r_audio :: real
  r_herta :: real

text \<open>What the controller does to the browser, in the order it does it.\<close>

datatype effect =
    StorageGet string
  | StorageSet string jsstring
  | SetInnerText elem jsstring
  | RemoveElem elem
  | BindOnclick elem
  | AudioPlay jsstring
  | AppendImg jsstring string
  | AppendRipple elem ripple
  | SetTimeoutRemove ripple nat

text \<open>
  The state of the page: the browser's side (the elements the document holds by id, the
  box of each element, \<open>localStorage\<close>, the \<open>window.arisGameInitialized\<close> property),
  the fields of \<open>ArisGame\<close>, every resource manager created so far with its \<open>loadAll\<close>
  call (\<open>manager\<close> is the position of the current one), and the effects so far.
\<close>

record game =
  document :: "string \<Rightarrow> elem option"
  layout :: "elem \<Rightarrow> rect"
  localStorage :: "string \<Rightarrow> jsstring option"
  arisGameInitialized :: bool
  manager :: "nat option"
  count :: jsnum
  elements :: handles
  loads :: "loadAll_call list"
  effects :: "effect list"

definition emit :: "effect list \<Rightarrow> game \<Rightarrow> game" where
  "emit es s = s\<lparr>effects := effects s @ es\<rparr>"

text \<open>\<open>content[i]\<close> on an array: \<open>undefined\<close> past the end, which \<open>innerText\<close> shows as text.\<close>

definition array_get :: "jsstring list \<Rightarrow> nat \<Rightarrow> jsstring" where
  "array_get xs i = (if i < length xs then xs ! i else ascii ''undefined'')"

definition falsy_content :: "content option \<Rightarrow> bool" where
  "falsy_content c = (c = None \<or> c = Some (Fixed []))"

definition setRandomText :: "elem option \<Rightarrow> string \<Rightarrow> real \<Rightarrow> game \<Rightarrow> game" where
  "setRandomText elem key r s =
     (case elem of
        None \<Rightarrow> s
      | Some e \<Rightarrow>
          (if falsy_content (texts GAME_CONFIG key) then s
           else case the (texts GAME_CONFIG key) of
                  Variants vs \<Rightarrow>
                    emit [SetInnerText e (array_get vs (random_index r (length vs)))] s
                | Fixed t \<Rightarrow> emit [SetInnerText e t] s))"

definition refreshTexts :: "draws \<Rightarrow> game \<Rightarrow> game completion" where
  "refreshTexts d s =
     (let s1 = setRandomText (btn (elements s)) ''counter-button'' (r_button d) s
      in case texts_of (elements s1) of
           None \<Rightarrow> Threw s1
         | Some t \<Rightarrow>
             Returned
               (setRandomText (ctUnit t) ''counter-unit'' (r_unit d)
                 (setRandomText (ctDesc t) ''counter-descriptions'' (r_descriptions d) s1)))"

definition no_draws :: draws where
  "no_draws = \<lparr> r_button = 0, r_descriptions = 0, r_unit = 0, r_audio = 0, r_herta = 0 \<rparr>"

text \<open>With \<open>randomizeText\<close> false no draw is made (\<open>init\<close> passes \<open>no_draws\<close>).\<close>

definition updateDisplay :: "bool \<Rightarrow> draws \<Rightarrow> game \<Rightarrow> game completion" where
  "updateDisplay randomizeText d s =
     (let s1 = (case counter (elements s) of
                  None \<Rightarrow> s
                | Some c \<Rightarrow> emit [SetInnerText c (toLocaleString_enUS (count s))] s)
      in if randomizeText then refreshTexts d s1 else Returned s1)"

text \<open>\<open>if (!source) return\<close>: \<open>null\<close>, \<open>undefined\<close> and the empty string are falsy.\<close>

definition playAudio :: "draws \<Rightarrow> game \<Rightarrow> game completion" where
  "playAudio d s =
     (case manager s of
        None \<Rightarrow> Threw s
      | Some k \<Rightarrow>
          (if \<not> k < length (loads s) then Threw s
           else
             let source = getRandomAudio (this (loads s ! k)) (r_audio d)
             in case source of
                  Payload b \<Rightarrow> (if b = [] then Returned s else Returned (emit [AudioPlay b] s))
                | _ \<Rightarrow> Returned s))"

definition herta_id :: "real \<Rightarrow> int" where
  "herta_id r = \<lfloor>r * 2\<rfloor> + 1"

definition herta_src :: "real \<Rightarrow> jsstring" where
  "herta_src r = ascii ''img/arisu'' @ js_toString (Num (herta_id r)) @ ascii ''.gif''"

definition spawnHerta :: "draws \<Rightarrow> game \<Rightarrow> game" where
  "spawnHerta d s = emit [AppendImg (herta_src (r_herta d)) ''herta-animation-obj''] s"


definition ripple_of :: "rect \<Rightarrow> pointer_event \<Rightarrow> ripple" where
  "ripple_of rc e =
     (let size = max (width rc) (height rc);
          x = fl (fl (clientX e - left rc) - fl (size / 2));
          y = fl (fl (clientY e - top rc) - fl (size / 2))
      in \<lparr> style_width = size, style_height = size, style_left = x, style_top = y,
           classList = [''ripple''] \<rparr>)"


definition createRipple :: "pointer_event \<Rightarrow> game \<Rightarrow> game completion" where
  "createRipple e s =
     (case btn (elements s) of
        None \<Rightarrow> Threw s
      | Some b \<Rightarrow>
          (let rp = ripple_of (layout s b) e
           in Returned (emit [AppendRipple b rp, SetTimeoutRemove rp 400] s)))"

definition handleInteraction :: "pointer_event \<Rightarrow> draws \<Rightarrow> game \<Rightarrow> game completion" where
  "handleInteraction e d s =
     (let s1 = s\<lparr>count := js_incr (count s)\<rparr>;
          s2 = emit [StorageSet ''count-v2'' (js_toString (count s1))]
                 (s1\<lparr>localStorage := (localStorage s1)(''count-v2'' \<mapsto> js_toString (count s1))\<rparr>)
      in and_then (and_then (and_then (updateDisplay True d s2) (playAudio d))
                    (\<lambda>s. Returned (spawnHerta d s)))
           (createRipple e))"

definition lookup_handles :: "game \<Rightarrow> handles" where
  "lookup_handles s =
     \<lparr> btn = document s ''counter-button'',
       counter = document s ''local-counter'',
       loading = document s ''loading'',
       texts_of = Some \<lparr> title = document s ''page-title'',
                          desc = document s ''page-descriptions'',
                          ctDesc = document s ''counter-descriptions'',
                          ctUnit = document s ''counter-unit'' \<rparr> \<rparr>"

text \<open>\<open>localStorage.getItem('count-v2') || '0'\<close>: \<open>null\<close> and the empty string give \<open>'0'\<close>.\<close>

definition stored_or_zero :: "jsstring option \<Rightarrow> jsstring" where
  "stored_or_zero item =
     (case item of None \<Rightarrow> ascii ''0'' | Some v \<Rightarrow> (if v = [] then ascii ''0'' else v))"

definition init :: "game \<Rightarrow> game" where
  "init s0 =
     (let s = s0\<lparr>elements := lookup_handles s0\<rparr> in
      if btn (elements s) = None then s
      else
        let item = localStorage s ''count-v2'';
            s1 = emit [StorageGet ''count-v2''] s;
            s2 = s1\<lparr>count := parseInt (stored_or_zero item)\<rparr>;
            s3 = state_of (updateDisplay False no_draws s2)
        in s3\<lparr>manager := Some (length (loads s3)),
               loads := loads s3 @ [loadAll GAME_CONFIG ResourceManager_new]\<rparr>)"

text \<open>
  The callback \<open>init\<close> passes to \<open>loadAll\<close>. It reads \<open>this.elements.btn\<close> when it is
  called, and throws when that is \<open>null\<close>. The quotient is taken over the reals, which
  is what the doubles give for the two audio files configured: \<open>1 / 2\<close> and \<open>2 / 2\<close> are
  exact.
\<close>

definition onProgress_init :: "nat \<Rightarrow> nat \<Rightarrow> game \<Rightarrow> game completion" where
  "onProgress_init current tot s =
     (let progress = \<lfloor>real current / real tot * 100\<rfloor> in
      case btn (elements s) of
        None \<Rightarrow> Threw s
      | Some b \<Rightarrow>
          Returned
            (emit [SetInnerText b (ascii ''Loading '' @ js_toString (Num progress) @ ascii ''%'')] s))"

definition onGameReady :: "draws \<Rightarrow> game \<Rightarrow> game completion" where
  "onGameReady d s =
     (let s1 = (case loading (elements s) of None \<Rightarrow> s | Some l \<Rightarrow> emit [RemoveElem l] s)
      in case btn (elements s1) of
           None \<Rightarrow> Threw s1
         | Some b \<Rightarrow> refreshTexts d (emit [BindOnclick b] s1))"

text \<open>
  Audio task \<open>i\<close> of the \<open>k\<close>-th \<open>loadAll\<close> call comes to \<open>oc\<close>: the task finishes with
  \<open>init\<close>'s callback, and \<open>.then\<close> runs \<open>onGameReady\<close> when this fulfils the call's promise.
\<close>

definition audioSettled :: "nat \<Rightarrow> nat \<Rightarrow> outcome \<Rightarrow> draws \<Rightarrow> game \<Rightarrow> game" where
  "audioSettled k i oc d s =
     (if \<not> k < length (loads s) then s
      else
        let c = loads s ! k;
            cw = audioTask GAME_CONFIG (Some onProgress_init) i oc (c, s);
            s1 = (snd cw)\<lparr>loads := (loads (snd cw))[k := fst cw]\<rparr>
        in if result c = Pending \<and> result (fst cw) = Fulfilled
           then state_of (onGameReady d s1) else s1)"

subsection \<open>Entry point\<close>

definition main :: "game \<Rightarrow> game" where
  "main s = (if arisGameInitialized s then s else init s)"

datatype signal = DOMContentLoaded | PjaxComplete | PjaxSend

fun listener :: "signal \<Rightarrow> game \<Rightarrow> game" where
  "listener DOMContentLoaded s = main s"
| "listener PjaxComplete s = init s"
| "listener PjaxSend s = s"

text \<open>The page when the script has been evaluated, before any signal.\<close>

definition loaded_page ::
  "(string \<Rightarrow> elem option) \<Rightarrow> (elem \<Rightarrow> rect) \<Rightarrow> (string \<Rightarrow> jsstring option) \<Rightarrow> game" where
  "loaded_page doc lay store =
     \<lparr> document = doc, layout = lay, localStorage = store, arisGameInitialized = False,
       manager = None, count = Num 0,
       elements = \<lparr> btn = None, counter = None, loading = None, texts_of = None \<rparr>,
       loads = [], effects = [] \<rparr>"

text \<open>A run of interactions: each click is handled on the state the last one left.\<close>

fun interactions :: "(pointer_event \<times> draws) list \<Rightarrow> game \<Rightarrow> game" where
  "interactions [] s = s"
| "interactions (ed # eds) s =
     interactions eds (state_of (handleInteraction (fst ed) (snd ed) s))"

section \<open>Observations on the effects\<close>





text \<open>How often a key of \<open>localStorage\<close> was read, and the values written to it, in order.\<close>

definition storage_reads :: "string \<Rightarrow> effect list \<Rightarrow> nat" where
  "storage_reads k evs = length (filter (\<lambda>e. e = StorageGet k) evs)"

definition storage_writes :: "string \<Rightarrow> effect list \<Rightarrow> jsstring list" where
  "storage_writes k evs =
     concat (map (\<lambda>e. case e of StorageSet k' v \<Rightarrow> (if k' = k then [v] else []) | _ \<Rightarrow> []) evs)"

text \<open>Effects that do not touch \<open>localStorage\<close>.\<close>

definition silent :: "effect list \<Rightarrow> bool" where
  "silent evs =
     list_all (\<lambda>e. case e of StorageGet k \<Rightarrow> False | StorageSet k v \<Rightarrow> False | _ \<Rightarrow> True) evs"

text \<open>
  The counter values from which \<open>n\<close> increments are exact: \<open>NaN\<close>, and the integers that
  stay within the doubles' contiguous range, up to \<open>2 ^ 53 = 9007199254740992\<close>.
\<close>

definition within_exact :: "jsnum \<Rightarrow> nat \<Rightarrow> bool" where
  "within_exact x n =
     (case x of
        NaN \<Rightarrow> True
      | Num v \<Rightarrow> - 9007199254740992 \<le> v \<and> v + int n \<le> 9007199254740992)"

text \<open>The code units of the decimal digits.\<close>

definition is_digit :: "nat \<Rightarrow> bool" where
  "is_digit c = (48 \<le> c \<and> c \<le> 57)"

section \<open>Example pages\<close>

text \<open>
  A document that holds every element the controller looks up, a document that holds
  none of them, and a box for the button.
\<close>

definition game_document :: "string \<Rightarrow> elem option" where
  "game_document i =
     (if i = ''counter-button'' then Some 1
      else if i = ''local-counter'' then Some 2
      else if i = ''loading'' then Some 3
      else if i = ''page-title'' then Some 4
      else if i = ''page-descriptions'' then Some 5
      else if i = ''counter-descriptions'' then Some 6
      else if i = ''counter-unit'' then Some 7
      else None)"

definition other_document :: "string \<Rightarrow> elem option" where
  "other_document i = None"

definition game_layout :: "elem \<Rightarrow> rect" where
  "game_layout e = \<lparr> left = 100, top = 50, width = 200, height = 80 \<rparr>"

definition fresh_page :: game where
  "fresh_page = loaded_page game_document game_layout (\<lambda>k. None)"

text \<open>The game page left for a page without the game, after one initialization.\<close>

definition navigated_page :: game where
  "navigated_page = (init fresh_page)\<lparr>document := other_document\<rparr>"

text \<open>The game page with a value in the \<open>count-v2\<close> slot.\<close>

definition stored_page :: "jsstring \<Rightarrow> game" where
  "stored_page v =
     loaded_page game_document game_layout (\<lambda>k. if k = ''count-v2'' then Some v else None)"

text \<open>
  That page initialized and ready: the first audio task has failed, then the second has
  loaded.
\<close>

definition ready_page :: "jsstring \<Rightarrow> game" where
  "ready_page v =
     audioSettled 0 1 (Pushed (Some (ascii ''data:audio/mpeg;base64,AAAA''))) no_draws
       (audioSettled 0 0 Failed no_draws (init (stored_page v)))"

text \<open>
  The game page left for a page without the game while its audio is loading, and both
  audio tasks of the first \<open>loadAll\<close> call settling afterwards.
\<close>

definition left_while_loading :: game where
  "left_while_loading =
     audioSettled 0 1 (Pushed (Some (ascii ''data:audio/mpeg;base64,BBBB''))) no_draws
       (audioSettled 0 0 (Pushed (Some (ascii ''data:audio/mpeg;base64,AAAA''))) no_draws
         (init navigated_page))"




text \<open>A schedule in which the first audio file cannot be read and the second cannot be
  fetched.\<close>

definition read_fails :: "settle list" where
  "read_fails = [AudioSettles 0 (Pushed None), AudioSettles 1 Failed]"


definition first_fails :: "settle list" where
  "first_fails =
     [ImageSettles 0 True, AudioSettles 0 Failed,
      AudioSettles 1 (Pushed (Some (ascii ''data:audio/mpeg;base64,BBBB'')))]"

definition second_first :: "settle list" where
  "second_first =
     [AudioSettles 1 (Pushed (Some (ascii ''data:audio/mpeg;base64,BBBB''))),
      ImageSettles 1 False,
      AudioSettles 0 (Pushed (Some (ascii ''data:audio/mpeg;base64,AAAA'')))]"

section \<open>Properties\<close>

subsection \<open>Random draws\<close>

lemma random_index_less:
  assumes "0 \<le> r" "r < 1" "0 < n"
  shows "random_index r n < n"
proof -
  have "r * real n < real n" using assms by simp
  then have "\<lfloor>r * real n\<rfloor> < int n" by (simp add: floor_less_iff)
  moreover have "0 \<le> \<lfloor>r * real n\<rfloor>" using assms by simp
  ultimately show ?thesis unfolding random_index_def by linarith
qed

lemma herta_id_cases:
  assumes "0 \<le> r" "r < 1"
  shows "herta_id r = 1 \<or> herta_id r = 2"
proof -
  have "\<lfloor>r * 2\<rfloor> < 2" using assms by (simp add: floor_less_iff)
  moreover have "0 \<le> \<lfloor>r * 2\<rfloor>" using assms by simp
  ultimately show ?thesis unfolding herta_id_def by linarith
qed

lemma herta_src_1:
  "ascii ''img/arisu'' @ js_toString (Num 1) @ ascii ''.gif'' = ascii ''img/arisu1.gif''"
  by (simp add: js_toString_def decimal.simps ascii_def)

lemma herta_src_2:
  "ascii ''img/arisu'' @ js_toString (Num 2) @ ascii ''.gif'' = ascii ''img/arisu2.gif''"
  by (simp add: js_toString_def decimal.simps ascii_def)

subsection \<open>The image of the visual effect\<close>

text \<open>
  C9. For every draw of \<open>Math.random()\<close> (a number in \<open>[0, 1)\<close>), the id \<open>spawnHerta\<close>
  computes is 1 or 2, the \<open>src\<close> of the image it appends is \<open>img/arisu1.gif\<close> or
  \<open>img/arisu2.gif\<close>, and that source is a member of \<open>GAME_CONFIG.preloadImages\<close>.
\<close>

theorem spawnHerta_image_preloaded:
  assumes "0 \<le> r_herta d" and "r_herta d < 1"
  shows "(herta_id (r_herta d) = 1 \<or> herta_id (r_herta d) = 2)
       \<and> (herta_src (r_herta d) = ascii ''img/arisu1.gif''
           \<or> herta_src (r_herta d) = ascii ''img/arisu2.gif'')
       \<and> herta_src (r_herta d) \<in> set (preloadImages GAME_CONFIG)
       \<and> effects (spawnHerta d s)
           = effects s @ [AppendImg (herta_src (r_herta d)) ''herta-animation-obj'']"
proof -
  from herta_id_cases [OF assms]
  have src: "herta_src (r_herta d) = ascii ''img/arisu1.gif''
      \<or> herta_src (r_herta d) = ascii ''img/arisu2.gif''"
    unfolding herta_src_def using herta_src_1 herta_src_2 by auto
  then have "herta_src (r_herta d) \<in> set (preloadImages GAME_CONFIG)"
    by (auto simp: GAME_CONFIG_def)
  with src herta_id_cases [OF assms] show ?thesis
    by (simp add: spawnHerta_def emit_def)
qed

theorem spawnHerta_image_preloaded_witness:
  "herta_src (r_herta (no_draws\<lparr>r_herta := 1 / 2\<rparr>)) = ascii ''img/arisu2.gif''
   \<and> herta_src (1 / 2) \<in> set (preloadImages GAME_CONFIG)"
proof -
  have a: "0 \<le> r_herta (no_draws\<lparr>r_herta := 1 / 2\<rparr>)" by simp
  have b: "r_herta (no_draws\<lparr>r_herta := 1 / 2\<rparr>) < 1" by simp
  have c: "herta_id (1 / 2) = 2" by (simp add: herta_id_def)
  from spawnHerta_image_preloaded [OF a b] c show ?thesis
    by (simp add: herta_src_def herta_src_2)
qed

subsection \<open>The counter-unit text\<close>

lemma counter_unit_text:
  assumes "0 \<le> r" "r < 1"
  shows "setRandomText (Some e) ''counter-unit'' r s = emit [SetInnerText e [27425]] s"
proof -
  define i where "i = random_index r (length [[27425::nat], [27425]])"
  have "i < length [[27425::nat], [27425]]"
    unfolding i_def by (rule random_index_less) (use assms in simp_all)
  then have "i = 0 \<or> i = 1" by (auto simp: less_Suc_eq)
  then have "array_get [[27425], [27425]] i = [27425]"
    by (auto simp: array_get_def)
  then show ?thesis unfolding i_def
    by (simp add: setRandomText_def GAME_CONFIG_def GAME_CONFIG_texts_def falsy_content_def)
qed

text \<open>
  C10. The text \<open>refreshTexts\<close> assigns to the counter-unit element does not depend on the
  draw: for any two draws in \<open>[0, 1)\<close> the assignment is the same, the text is the one
  code unit 27425 that both variants of \<open>counter-unit\<close> consist of, and two runs of
  \<open>refreshTexts\<close> that differ only in the counter-unit draw end in the same state.
\<close>

theorem counter_unit_deterministic:
  assumes "0 \<le> r_unit d1" "r_unit d1 < 1" "0 \<le> r_unit d2" "r_unit d2 < 1"
    and "r_button d1 = r_button d2" "r_descriptions d1 = r_descriptions d2"
  shows "setRandomText elem ''counter-unit'' (r_unit d1) s
           = setRandomText elem ''counter-unit'' (r_unit d2) s
       \<and> (\<forall>e. elem = Some e \<longrightarrow>
             effects (setRandomText elem ''counter-unit'' (r_unit d1) s)
               = effects s @ [SetInnerText e [27425]])
       \<and> refreshTexts d1 s = refreshTexts d2 s"
proof -
  have one: "setRandomText elem ''counter-unit'' (r_unit d1) s'
           = setRandomText elem ''counter-unit'' (r_unit d2) s'" for s' elem
  proof (cases elem)
    case None
    then show ?thesis by (simp add: setRandomText_def)
  next
    case (Some e)
    then show ?thesis using assms(1-4) by (simp add: counter_unit_text)
  qed
  have two: "\<forall>e. elem = Some e \<longrightarrow>
             effects (setRandomText elem ''counter-unit'' (r_unit d1) s)
               = effects s @ [SetInnerText e [27425]]"
    using assms(1,2) by (simp add: counter_unit_text emit_def)
  have three: "refreshTexts d1 s = refreshTexts d2 s"
    using assms(5,6) one by (simp add: refreshTexts_def Let_def split: option.splits)
  from one two three show ?thesis by simp
qed

theorem counter_unit_deterministic_witness:
  "setRandomText (Some 7) ''counter-unit'' (r_unit no_draws) fresh_page
     = setRandomText (Some 7) ''counter-unit'' (r_unit (no_draws\<lparr>r_unit := 3 / 4\<rparr>)) fresh_page
   \<and> effects (setRandomText (Some 7) ''counter-unit'' (r_unit no_draws) fresh_page)
       = effects fresh_page @ [SetInnerText 7 [27425]]
   \<and> refreshTexts no_draws fresh_page = refreshTexts (no_draws\<lparr>r_unit := 3 / 4\<rparr>) fresh_page"
proof -
  let ?d2 = "no_draws\<lparr>r_unit := 3 / 4\<rparr>"
  have h: "0 \<le> r_unit no_draws" "r_unit no_draws < 1" "0 \<le> r_unit ?d2" "r_unit ?d2 < 1"
    "r_button no_draws = r_button ?d2" "r_descriptions no_draws = r_descriptions ?d2"
    by (simp_all add: no_draws_def)
  from counter_unit_deterministic [OF h, of "Some 7" fresh_page]
  show ?thesis by blast
qed

subsection \<open>Evaluating the example pages\<close>

lemmas eval_parse = parseInt_def stored_or_zero_def ascii_def isStrWhiteSpaceChar_def
  radixDigit_def digitValue_def mathInt_def to_double_def expo.simps

lemmas eval_init = init_def loaded_page_def lookup_handles_def game_document_def
  updateDisplay_def emit_def loadAll_def join_def ResourceManager_new_def GAME_CONFIG_def
  Let_def

lemma init_fresh_page:
  "init fresh_page =
     \<lparr> document = game_document, layout = game_layout, localStorage = (\<lambda>k. None),
       arisGameInitialized = False, manager = Some 0, count = Num 0,
       elements = \<lparr> btn = Some 1, counter = Some 2, loading = Some 3,
         texts_of = Some \<lparr> title = Some 4, desc = Some 5, ctDesc = Some 6,
           ctUnit = Some 7 \<rparr> \<rparr>,
       loads = [\<lparr> this = \<lparr> audioCache = [], isReady = False \<rparr>, loadedCount = 0, total = 2,
         audioTasks = [Pending, Pending], result = Pending,
         trace = [Fetch (ascii ''audio/1.mp3''), Fetch (ascii ''audio/2.mp3''),
           ImageSrc (ascii ''img/arisu1.gif''), ImageSrc (ascii ''img/arisu2.gif'')] \<rparr>],
       effects = [StorageGet ''count-v2'', SetInnerText 2 (ascii ''0'')] \<rparr>"
  by (simp add: fresh_page_def eval_init eval_parse toLocaleString_enUS_def decimal.simps
      numeral_2_eq_2)

subsection \<open>Initialization\<close>

lemma init_absent:
  assumes "document s ''counter-button'' = None"
  shows "init s = s\<lparr>elements := lookup_handles s\<rparr>"
  using assms by (simp add: init_def lookup_handles_def Let_def)

lemma init_present_count:
  assumes "document s ''counter-button'' = Some b"
  shows "count (init s) = parseInt (stored_or_zero (localStorage s ''count-v2''))"
  using assms
  by (simp add: init_def lookup_handles_def Let_def updateDisplay_def emit_def
      split: option.splits)

lemma init_present_effects:
  assumes "document s ''counter-button'' = Some b"
  shows "effects (init s) = effects s @ StorageGet ''count-v2'' #
           (case document s ''local-counter'' of
              None \<Rightarrow> []
            | Some c \<Rightarrow> [SetInnerText c (toLocaleString_enUS (count (init s)))])"
  using assms
  by (simp add: init_def lookup_handles_def Let_def updateDisplay_def emit_def
      split: option.splits)

text \<open>
  C3, as stated, fails: the handle bindings are replaced before the button is looked
  at. On the page left after a navigation away from the game, the button handle
  changes from the old button to none.
\<close>

theorem init_absent_button_counterexample:
  "document navigated_page ''counter-button'' = None
   \<and> btn (elements navigated_page) = Some 1
   \<and> btn (elements (init navigated_page)) = None
   \<and> elements (init navigated_page) \<noteq> elements navigated_page"
proof -
  have d: "document navigated_page ''counter-button'' = None"
    by (simp add: navigated_page_def other_document_def)
  have b: "btn (elements navigated_page) = Some 1"
    by (simp add: navigated_page_def init_fresh_page)
  have a: "btn (elements (init navigated_page)) = None"
    by (simp add: init_absent [OF d] lookup_handles_def d)
  from d a b show ?thesis by auto
qed

text \<open>
  C3, amended. When the document holds no \<open>counter-button\<close>, \<open>init\<close> changes nothing but
  the handle bindings, which become the results of the fresh lookup (with no button):
  the counter, the manager, the persisted slot and the guard flag are as before, no
  \<open>loadAll\<close> call is started or changed (no network activity), and no effect is added.
\<close>

theorem init_absent_button:
  assumes "document s ''counter-button'' = None"
  shows "init s = s\<lparr>elements := lookup_handles s\<rparr>
       \<and> count (init s) = count s
       \<and> manager (init s) = manager s
       \<and> localStorage (init s) = localStorage s
       \<and> loads (init s) = loads s
       \<and> effects (init s) = effects s
       \<and> arisGameInitialized (init s) = arisGameInitialized s
       \<and> btn (elements (init s)) = None"
  using assms by (simp add: init_absent lookup_handles_def)

theorem init_absent_button_witness:
  "init navigated_page = navigated_page\<lparr>elements := lookup_handles navigated_page\<rparr>
   \<and> count (init navigated_page) = Num 0
   \<and> manager (init navigated_page) = Some 0
   \<and> length (loads (init navigated_page)) = 1
   \<and> effects (init navigated_page) = [StorageGet ''count-v2'', SetInnerText 2 (ascii ''0'')]"
proof -
  have d: "document navigated_page ''counter-button'' = None"
    by (simp add: navigated_page_def other_document_def)
  from init_absent_button [OF d] show ?thesis
    by (simp add: navigated_page_def init_fresh_page)
qed

text \<open>
  C4, as stated, fails: with \<open>abc\<close> in the slot, which \<open>parseInt\<close> cannot parse, the counter
  after initialization is \<open>NaN\<close>, not 0.
\<close>

theorem init_counter_unparsable_counterexample:
  "parseInt (ascii ''abc'') = NaN
   \<and> localStorage (stored_page (ascii ''abc'')) ''count-v2'' = Some (ascii ''abc'')
   \<and> count (init (stored_page (ascii ''abc''))) = NaN
   \<and> count (init (stored_page (ascii ''abc''))) \<noteq> Num 0"
proof -
  have p: "parseInt (ascii ''abc'') = NaN" by (simp add: eval_parse Let_def)
  have b: "document (stored_page v) ''counter-button'' = Some 1" for v
    by (simp add: stored_page_def loaded_page_def game_document_def)
  have "stored_or_zero (Some (ascii ''abc'')) = ascii ''abc''"
    by (simp add: stored_or_zero_def ascii_def)
  then have "count (init (stored_page (ascii ''abc''))) = NaN"
    using p by (simp add: init_present_count [OF b]) (simp add: stored_page_def loaded_page_def)
  with p show ?thesis by (simp add: stored_page_def loaded_page_def)
qed

text \<open>
  C4, amended. An initialization that finds the button reads the \<open>count-v2\<close> slot once.
  The counter is 0 when the slot is absent or holds the empty string; for any other
  stored value it is \<open>parseInt\<close> of that value, so \<open>NaN\<close> when the value does not start
  with an integer.
\<close>

theorem init_reads_counter:
  assumes "document s ''counter-button'' = Some b"
  shows "storage_reads ''count-v2'' (effects (init s))
           = storage_reads ''count-v2'' (effects s) + 1
       \<and> (localStorage s ''count-v2'' = None \<or> localStorage s ''count-v2'' = Some []
            \<longrightarrow> count (init s) = Num 0)
       \<and> (\<forall>v. localStorage s ''count-v2'' = Some v \<and> v \<noteq> []
            \<longrightarrow> count (init s) = parseInt v)
       \<and> (\<forall>v. localStorage s ''count-v2'' = Some v \<and> v \<noteq> [] \<and> parseInt v = NaN
            \<longrightarrow> count (init s) = NaN)"
proof -
  have z: "parseInt (ascii ''0'') = Num 0" by (simp add: eval_parse Let_def)
  have r: "storage_reads ''count-v2'' (effects (init s))
           = storage_reads ''count-v2'' (effects s) + 1"
    by (simp add: init_present_effects [OF assms] storage_reads_def split: option.splits)
  show ?thesis
    using r z by (auto simp: init_present_count [OF assms] stored_or_zero_def)
qed

theorem init_reads_counter_witness:
  "count (init fresh_page) = Num 0
   \<and> count (init (stored_page [])) = Num 0
   \<and> count (init (stored_page (ascii ''41 clicks''))) = Num 41
   \<and> count (init (stored_page (ascii ''abc''))) = NaN
   \<and> storage_reads ''count-v2'' (effects (init fresh_page)) = 1"
proof -
  have b: "document (stored_page v) ''counter-button'' = Some 1" for v
    by (simp add: stored_page_def loaded_page_def game_document_def)
  have b0: "document fresh_page ''counter-button'' = Some 1"
    by (simp add: fresh_page_def loaded_page_def game_document_def)
  have l: "localStorage (stored_page v) ''count-v2'' = Some v" for v
    by (simp add: stored_page_def loaded_page_def)
  have l0: "localStorage fresh_page ''count-v2'' = None" "effects fresh_page = []"
    by (simp_all add: fresh_page_def loaded_page_def)
  have p: "parseInt (ascii ''abc'') = NaN" "parseInt (ascii ''41 clicks'') = Num 41"
    by (simp_all add: eval_parse Let_def)
  have n: "ascii ''abc'' \<noteq> []" "ascii ''41 clicks'' \<noteq> []" by (simp_all add: ascii_def)
  from init_reads_counter [OF b0] l0
  have 1: "count (init fresh_page) = Num 0"
    "storage_reads ''count-v2'' (effects (init fresh_page)) = 1"
    by (simp_all add: storage_reads_def)
  from init_reads_counter [OF b, of "[]"] l
  have 2: "count (init (stored_page [])) = Num 0" by simp
  from init_reads_counter [OF b, of "ascii ''41 clicks''"] l n p
  have 3: "count (init (stored_page (ascii ''41 clicks''))) = Num 41" by simp
  from init_reads_counter [OF b, of "ascii ''abc''"] l n p
  have 4: "count (init (stored_page (ascii ''abc''))) = NaN" by simp
  from 1 2 3 4 show ?thesis by simp
qed

subsection \<open>The entry point\<close>

lemma init_flag: "arisGameInitialized (init s) = arisGameInitialized s"
  by (simp add: init_def lookup_handles_def Let_def updateDisplay_def emit_def
      split: option.splits)

lemma init_document: "document (init s) = document s"
  by (simp add: init_def lookup_handles_def Let_def updateDisplay_def emit_def
      split: option.splits)

lemma init_present_loads:
  assumes "document s ''counter-button'' = Some b"
  shows "loads (init s) = loads s @ [loadAll GAME_CONFIG ResourceManager_new]"
    and "manager (init s) = Some (length (loads s))"
  using assms
  by (simp_all add: init_def lookup_handles_def Let_def updateDisplay_def emit_def
      split: option.splits)

text \<open>
  C7. Nothing sets the guard flag that \<open>main\<close> consults: on the game page the flag is
  still false after the first \<open>main\<close>, and a second \<open>main\<close> initializes again. It reads the
  slot a second time and creates a second resource manager with its own \<open>loadAll\<close> call.
  From no state does \<open>main\<close> change the flag.
\<close>

theorem main_guard_never_set:
  "arisGameInitialized fresh_page = False
   \<and> arisGameInitialized (main fresh_page) = False
   \<and> main fresh_page = init fresh_page
   \<and> main (main fresh_page) = init (init fresh_page)
   \<and> length (loads (main fresh_page)) = 1
   \<and> length (loads (main (main fresh_page))) = 2
   \<and> manager (main (main fresh_page)) = Some 1
   \<and> storage_reads ''count-v2'' (effects (main (main fresh_page))) = 2
   \<and> arisGameInitialized (main s) = arisGameInitialized s"
proof -
  have g: "arisGameInitialized (main s) = arisGameInitialized s"
    by (simp add: main_def init_flag)
  have f: "arisGameInitialized fresh_page = False"
    by (simp add: fresh_page_def loaded_page_def)
  have m1: "main fresh_page = init fresh_page" by (simp add: main_def f)
  have m2: "main (main fresh_page) = init (init fresh_page)"
    by (simp add: main_def m1 init_flag f)
  have b: "document (init fresh_page) ''counter-button'' = Some 1"
    by (simp add: init_document) (simp add: fresh_page_def loaded_page_def game_document_def)
  have r: "storage_reads ''count-v2'' (effects (init (init fresh_page))) = 2"
    unfolding storage_reads_def init_present_effects [OF b]
    by (simp add: init_fresh_page split: option.splits)
  have f1: "arisGameInitialized (main fresh_page) = False"
    unfolding m1 init_flag by (rule f)
  have l1: "length (loads (main fresh_page)) = 1"
    unfolding m1 by (simp add: init_fresh_page)
  have l2: "length (loads (main (main fresh_page))) = 2"
    unfolding m2 init_present_loads(1) [OF b] by (simp add: init_fresh_page)
  have mg: "manager (main (main fresh_page)) = Some 1"
    unfolding m2 init_present_loads(2) [OF b] by (simp add: init_fresh_page)
  have r2: "storage_reads ''count-v2'' (effects (main (main fresh_page))) = 2"
    unfolding m2 by (rule r)
  show ?thesis by (intro conjI f f1 m1 m2 l1 l2 mg r2 g)
qed

subsection \<open>Exact increments\<close>

lemma expo_small: "a < 9007199254740992 \<Longrightarrow> expo a = 0"
  by (subst expo.simps) simp

lemma expo_edge: "expo 9007199254740992 = 1"
  by (simp add: expo.simps)

lemma to_double_exact:
  assumes "- 9007199254740992 \<le> n" "n \<le> 9007199254740992"
  shows "to_double n = n"
proof (cases "\<bar>n\<bar> < 9007199254740992")
  case True
  then show ?thesis by (simp add: to_double_def expo_small)
next
  case False
  with assms have "n = 9007199254740992 \<or> n = - 9007199254740992" by linarith
  then show ?thesis
  proof
    assume "n = 9007199254740992"
    then show ?thesis by (simp add: to_double_def expo_edge)
  next
    assume "n = - 9007199254740992"
    then show ?thesis by (simp add: to_double_def expo_edge)
  qed
qed

lemma js_incr_exact:
  assumes "within_exact x (Suc n)"
  shows "js_incr x = js_plus x 1" and "within_exact (js_incr x) n"
  using assms
  by (auto simp: within_exact_def js_incr_def js_plus_def to_double_exact split: jsnum.splits)

lemma js_plus_Suc: "js_plus (js_plus x (Suc 0)) n = js_plus x (Suc n)"
  by (simp add: js_plus_def split: jsnum.splits)


lemma emit_emit: "emit es2 (emit es1 s) = emit (es1 @ es2) s"
  by (simp add: emit_def)

lemma emit_Nil: "emit [] s = s"
  by (simp add: emit_def)

lemma emit_fields:
  "count (emit es s) = count s" "localStorage (emit es s) = localStorage s"
  "effects (emit es s) = effects s @ es" "manager (emit es s) = manager s"
  "loads (emit es s) = loads s" "elements (emit es s) = elements s"
  "document (emit es s) = document s" "layout (emit es s) = layout s"
  "arisGameInitialized (emit es s) = arisGameInitialized s"
  by (simp_all add: emit_def)

lemma silent_append: "silent (a @ b) \<longleftrightarrow> silent a \<and> silent b"
  by (simp add: silent_def)

lemma silent_Nil: "silent []"
  by (simp add: silent_def)

lemma storage_writes_append:
  "storage_writes k (a @ b) = storage_writes k a @ storage_writes k b"
  by (simp add: storage_writes_def)

lemma silent_writes: "silent es \<Longrightarrow> storage_writes k es = []"
  by (induction es) (auto simp: silent_def storage_writes_def split: effect.splits)

lemma setRandomText_silent: "\<exists>es. silent es \<and> setRandomText elem key r s = emit es s"
proof (cases "\<exists>es. setRandomText elem key r s = emit [es] s")
  case True
  then obtain x where x: "setRandomText elem key r s = emit [x] s" by blast
  then have "\<exists>e t. x = SetInnerText e t"
    by (auto simp: setRandomText_def emit_def split: option.splits if_splits content.splits
        dest!: arg_cong [where f = effects])
  then have "silent [x]" by (auto simp: silent_def)
  with x show ?thesis by blast
next
  case False
  then have "setRandomText elem key r s = s"
    by (auto simp: setRandomText_def split: option.splits content.splits)
  then show ?thesis using silent_Nil emit_Nil by metis
qed


lemma silent_compose:
  assumes "silent es1" "t = emit es1 s" "silent es2" "u = emit es2 t"
  shows "\<exists>es. silent es \<and> u = emit es s"
  using assms by (metis emit_emit silent_append)

lemma refreshTexts_silent: "\<exists>es. silent es \<and> state_of (refreshTexts d s) = emit es s"
proof -
  obtain e1 where e1: "silent e1"
    "setRandomText (btn (elements s)) ''counter-button'' (r_button d) s = emit e1 s"
    using setRandomText_silent by blast
  show ?thesis
  proof (cases "texts_of (elements s)")
    case None
    then have "state_of (refreshTexts d s) = emit e1 s"
      by (simp add: refreshTexts_def e1 emit_fields)
    with e1 show ?thesis by blast
  next
    case (Some t)
    obtain e2 where e2: "silent e2"
      "setRandomText (ctDesc t) ''counter-descriptions'' (r_descriptions d) (emit e1 s)
         = emit e2 (emit e1 s)"
      using setRandomText_silent by blast
    obtain e3 where e3: "silent e3"
      "setRandomText (ctUnit t) ''counter-unit'' (r_unit d) (emit e2 (emit e1 s))
         = emit e3 (emit e2 (emit e1 s))"
      using setRandomText_silent by blast
    have "state_of (refreshTexts d s) = emit e3 (emit e2 (emit e1 s))"
      using Some by (simp add: refreshTexts_def e1 e2 e3 emit_fields)
    then have "state_of (refreshTexts d s) = emit (e1 @ e2 @ e3) s"
      by (simp add: emit_emit)
    moreover have "silent (e1 @ e2 @ e3)" using e1 e2 e3 by (simp add: silent_append)
    ultimately show ?thesis by blast
  qed
qed

lemma updateDisplay_silent:
  "\<exists>es. silent es \<and> state_of (updateDisplay b d s) = emit es s"
proof -
  define s1 where "s1 = (case counter (elements s) of
                  None \<Rightarrow> s
                | Some c \<Rightarrow> emit [SetInnerText c (toLocaleString_enUS (count s))] s)"
  have "\<exists>es. silent es \<and> s1 = emit es s"
  proof (cases "counter (elements s)")
    case None
    then show ?thesis unfolding s1_def using silent_Nil emit_Nil by (metis option.simps(4))
  next
    case (Some c)
    have "silent [SetInnerText c (toLocaleString_enUS (count s))]" by (simp add: silent_def)
    with Some show ?thesis unfolding s1_def by (metis option.simps(5))
  qed
  then obtain e1 where e1: "silent e1" "s1 = emit e1 s" by blast
  obtain e2 where e2: "silent e2" "state_of (refreshTexts d s1) = emit e2 s1"
    using refreshTexts_silent by blast
  have "state_of (updateDisplay b d s) = (if b then state_of (refreshTexts d s1) else s1)"
    by (simp add: updateDisplay_def s1_def Let_def)
  then show ?thesis using e1 e2 silent_compose by (cases b) auto
qed

lemma playAudio_silent: "\<exists>es. silent es \<and> state_of (playAudio d s) = emit es s"
proof (cases "\<exists>b. state_of (playAudio d s) = emit [AudioPlay b] s")
  case True
  then obtain b where "state_of (playAudio d s) = emit [AudioPlay b] s" by blast
  moreover have "silent [AudioPlay b]" by (simp add: silent_def)
  ultimately show ?thesis by blast
next
  case False
  then have "state_of (playAudio d s) = s"
    by (auto simp: playAudio_def Let_def split: option.splits audio.splits if_splits)
  then show ?thesis using silent_Nil emit_Nil by metis
qed

lemma spawnHerta_silent: "\<exists>es. silent es \<and> spawnHerta d s = emit es s"
proof -
  have "silent [AppendImg (herta_src (r_herta d)) ''herta-animation-obj'']"
    by (simp add: silent_def)
  then show ?thesis unfolding spawnHerta_def by blast
qed

lemma createRipple_silent: "\<exists>es. silent es \<and> state_of (createRipple e s) = emit es s"
proof (cases "btn (elements s)")
  case None
  then have "state_of (createRipple e s) = s" by (simp add: createRipple_def)
  then show ?thesis using silent_Nil emit_Nil by metis
next
  case (Some b)
  have "silent [AppendRipple b rp, SetTimeoutRemove rp 400]" for rp by (simp add: silent_def)
  with Some show ?thesis by (auto simp: createRipple_def Let_def)
qed

lemma state_of_and_then:
  "state_of (and_then c f) = (case c of Returned s \<Rightarrow> state_of (f s) | Threw s \<Rightarrow> s)"
  by (cases c) simp_all

lemma and_then_silent:
  assumes "\<exists>es. silent es \<and> state_of c = emit es s"
    and "\<And>t. \<exists>es. silent es \<and> state_of (f t) = emit es t"
  shows "\<exists>es. silent es \<and> state_of (and_then c f) = emit es s"
proof (cases c)
  case (Returned t)
  from assms(1) Returned obtain e1 where e1: "silent e1" "t = emit e1 s" by auto
  from assms(2) obtain e2 where e2: "silent e2" "state_of (f t) = emit e2 t" by blast
  from silent_compose [OF e1 e2] Returned show ?thesis by simp
next
  case (Threw t)
  with assms(1) show ?thesis by simp
qed


lemma handleInteraction_silent:
  "\<exists>es. silent es \<and> state_of (handleInteraction e d s) =
     emit (StorageSet ''count-v2'' (js_toString (js_incr (count s))) # es)
       (s\<lparr>count := js_incr (count s),
          localStorage := (localStorage s)(''count-v2'' \<mapsto> js_toString (js_incr (count s)))\<rparr>)"
proof -
  define s2 where "s2 = emit [StorageSet ''count-v2'' (js_toString (js_incr (count s)))]
       (s\<lparr>count := js_incr (count s),
          localStorage := (localStorage s)(''count-v2'' \<mapsto> js_toString (js_incr (count s)))\<rparr>)"
  have h: "handleInteraction e d s =
      and_then (and_then (and_then (updateDisplay True d s2) (playAudio d))
                    (\<lambda>s. Returned (spawnHerta d s))) (createRipple e)"
    by (simp add: handleInteraction_def s2_def Let_def)
  have "\<exists>es. silent es \<and> state_of (handleInteraction e d s) = emit es s2"
    unfolding h
    by (intro and_then_silent updateDisplay_silent playAudio_silent createRipple_silent)
      (simp add: spawnHerta_silent)
  then obtain es where "silent es" "state_of (handleInteraction e d s) = emit es s2" by blast
  then show ?thesis unfolding s2_def by (auto simp: emit_emit)
qed

lemma handleInteraction_counter:
  "count (state_of (handleInteraction e d s)) = js_incr (count s)"
  "localStorage (state_of (handleInteraction e d s)) ''count-v2''
     = Some (js_toString (js_incr (count s)))"
  "storage_writes ''count-v2'' (effects (state_of (handleInteraction e d s)))
     = storage_writes ''count-v2'' (effects s) @ [js_toString (js_incr (count s))]"
proof -
  obtain es where es: "silent es" "state_of (handleInteraction e d s) =
     emit (StorageSet ''count-v2'' (js_toString (js_incr (count s))) # es)
       (s\<lparr>count := js_incr (count s),
          localStorage := (localStorage s)(''count-v2'' \<mapsto> js_toString (js_incr (count s)))\<rparr>)"
    using handleInteraction_silent by blast
  show "count (state_of (handleInteraction e d s)) = js_incr (count s)"
    by (simp add: es(2) emit_fields)
  show "localStorage (state_of (handleInteraction e d s)) ''count-v2''
     = Some (js_toString (js_incr (count s)))"
    by (simp add: es(2) emit_fields)
  have "storage_writes ''count-v2'' (StorageSet ''count-v2'' v # es) = [v]" for v
    using silent_writes [OF es(1), of "''count-v2''"] by (simp add: storage_writes_def)
  then show "storage_writes ''count-v2'' (effects (state_of (handleInteraction e d s)))
     = storage_writes ''count-v2'' (effects s) @ [js_toString (js_incr (count s))]"
    by (simp add: es(2) emit_fields storage_writes_append)
qed

lemma interactions_counter:
  assumes "within_exact (count s) (length eds)"
  shows "count (interactions eds s) = js_plus (count s) (length eds)
       \<and> storage_writes ''count-v2'' (effects (interactions eds s))
           = storage_writes ''count-v2'' (effects s)
             @ map (\<lambda>i. js_toString (js_plus (count s) (Suc i))) [0..<length eds]
       \<and> (eds \<noteq> [] \<longrightarrow> localStorage (interactions eds s) ''count-v2''
             = Some (js_toString (js_plus (count s) (length eds))))"
  using assms
proof (induction eds arbitrary: s)
  case Nil
  then show ?case by (simp add: js_plus_def split: jsnum.splits)
next
  case (Cons ed eds)
  define t where "t = state_of (handleInteraction (fst ed) (snd ed) s)"
  from Cons.prems have w: "within_exact (count s) (Suc (length eds))" by simp
  have ct: "count t = js_plus (count s) 1" "within_exact (count t) (length eds)"
    unfolding t_def handleInteraction_counter using js_incr_exact [OF w] by simp_all
  have lt: "localStorage t ''count-v2'' = Some (js_toString (js_plus (count s) 1))"
    and wt: "storage_writes ''count-v2'' (effects t)
       = storage_writes ''count-v2'' (effects s) @ [js_toString (js_plus (count s) 1)]"
    unfolding t_def handleInteraction_counter using js_incr_exact(1) [OF w] by simp_all
  note ih = Cons.IH [OF ct(2)]
  have i: "interactions (ed # eds) s = interactions eds t" by (simp add: t_def)
  have 1: "count (interactions (ed # eds) s) = js_plus (count s) (length (ed # eds))"
    unfolding i using ih by (simp add: ct(1) js_plus_Suc)
  have 2: "storage_writes ''count-v2'' (effects (interactions (ed # eds) s))
           = storage_writes ''count-v2'' (effects s)
             @ map (\<lambda>i. js_toString (js_plus (count s) (Suc i))) [0..<length (ed # eds)]"
    unfolding i using ih
    by (simp add: wt ct(1) js_plus_Suc map_upt_Suc del: upt_Suc)
  have 3: "localStorage (interactions (ed # eds) s) ''count-v2''
             = Some (js_toString (js_plus (count s) (length (ed # eds))))"
  proof (cases eds)
    case Nil
    then show ?thesis unfolding i using lt by simp
  next
    case (Cons a list)
    then show ?thesis unfolding i using ih by (simp add: ct(1) js_plus_Suc)
  qed
  from 1 2 3 show ?case by simp
qed

subsection \<open>Rounding to doubles\<close>

lemma expo_zero: "expo a = 0 \<longleftrightarrow> a < 9007199254740992"
  by (subst expo.simps) simp







lemma to_double_pos:
  assumes "0 < n" "expo n = Suc e'"
  shows "to_double n =
     (if 2 ^ e' < n mod 2 ^ Suc e' \<or> (n mod 2 ^ Suc e' = 2 ^ e' \<and> odd (n div 2 ^ Suc e'))
      then n div 2 ^ Suc e' + 1 else n div 2 ^ Suc e') * 2 ^ Suc e'"
proof -
  from assms(1) have a: "\<bar>n\<bar> = n" "sgn n = 1" by simp_all
  show ?thesis unfolding to_double_def Let_def a assms(2) by simp
qed







lemma to_double_nonneg:
  assumes "0 \<le> n"
  shows "0 \<le> to_double n"
proof (cases "expo n")
  case 0
  with assms show ?thesis by (simp add: to_double_def)
next
  case (Suc e')
  then have "\<not> n < 9007199254740992" using expo_zero [of n] by simp
  then have n0: "0 < n" by simp
  then have "0 \<le> n div 2 ^ Suc e'" by (simp add: pos_imp_zdiv_nonneg_iff)
  then show ?thesis unfolding to_double_pos [OF n0 Suc]
    by (intro mult_nonneg_nonneg) auto
qed


subsection \<open>Reading back what was written\<close>

lemma mathInt_snoc:
  "mathInt R (xs @ [c]) = mathInt R xs * int R + int (the (digitValue c))"
  by (simp add: mathInt_def)

lemma is_digit_facts:
  assumes "is_digit c"
  shows "radixDigit 10 c" "\<not> isStrWhiteSpaceChar c" "c \<noteq> 45" "c \<noteq> 43" "c \<noteq> 120" "c \<noteq> 88"
  using assms by (auto simp: is_digit_def radixDigit_def digitValue_def isStrWhiteSpaceChar_def)

lemma digit_char:
  assumes "0 \<le> d" "d < 10"
  shows "digitValue (nat (48 + d)) = Some (nat d)" "is_digit (nat (48 + d))"
  using assms by (auto simp: digitValue_def is_digit_def)

lemma decimal_digits:
  "0 \<le> n \<Longrightarrow> decimal n \<noteq> [] \<and> list_all is_digit (decimal n) \<and> mathInt 10 (decimal n) = n"
proof (induction n rule: decimal.induct)
  case (1 n)
  show ?case
  proof (cases "n < 10")
    case True
    with "1.prems" show ?thesis
      by (subst (1 2 3) decimal.simps) (simp add: mathInt_def digit_char)
  next
    case False
    then have ih: "decimal (n div 10) \<noteq> []" "list_all is_digit (decimal (n div 10))"
      "mathInt 10 (decimal (n div 10)) = n div 10"
      using "1.IH" "1.prems" by simp_all
    have d: "0 \<le> n mod 10" "n mod 10 < 10" by simp_all
    with False ih show ?thesis
      by (subst (1 2 3) decimal.simps) (simp add: mathInt_snoc digit_char)
  qed
qed

lemma takeWhile_digits: "list_all is_digit ds \<Longrightarrow> takeWhile (radixDigit 10) ds = ds"
  by (induction ds) (simp_all add: is_digit_facts)

lemma parseInt_unsigned:
  assumes "is_digit c" "list_all is_digit cs"
  shows "parseInt (c # cs) = Num (to_double (mathInt 10 (c # cs)))"
proof -
  have S: "dropWhile isStrWhiteSpaceChar (c # cs) = c # cs"
    using is_digit_facts(2) [OF assms(1)] by simp
  have nh: "(2 \<le> length (c # cs) \<and> hd (c # cs) = 48
      \<and> ((c # cs) ! 1 = 120 \<or> (c # cs) ! 1 = 88)) = False"
  proof (cases cs)
    case Nil
    then show ?thesis by simp
  next
    case (Cons c' cs')
    with assms(2) have "is_digit c'" by simp
    from is_digit_facts(5,6) [OF this] show ?thesis by (simp add: Cons)
  qed
  have sg: "(c # cs \<noteq> [] \<and> hd (c # cs) = 45) = False"
    "(c # cs \<noteq> [] \<and> (hd (c # cs) = 43 \<or> hd (c # cs) = 45)) = False"
    using is_digit_facts(3,4) [OF assms(1)] by simp_all
  have tw: "takeWhile (radixDigit 10) (c # cs) = c # cs"
    using assms by (intro takeWhile_digits) simp
  show ?thesis
    unfolding parseInt_def Let_def S sg nh if_False tw by simp
qed

lemma parseInt_negative:
  assumes "is_digit c" "list_all is_digit cs"
  shows "parseInt (45 # c # cs) = Num (to_double (- mathInt 10 (c # cs)))"
proof -
  have S: "dropWhile isStrWhiteSpaceChar (45 # c # cs) = 45 # c # cs"
    by (simp add: isStrWhiteSpaceChar_def)
  have nh: "(2 \<le> length (c # cs) \<and> hd (c # cs) = 48
      \<and> ((c # cs) ! 1 = 120 \<or> (c # cs) ! 1 = 88)) = False"
  proof (cases cs)
    case Nil
    then show ?thesis by simp
  next
    case (Cons c' cs')
    with assms(2) have "is_digit c'" by simp
    from is_digit_facts(5,6) [OF this] show ?thesis by (simp add: Cons)
  qed
  have sg: "(45 # c # cs \<noteq> [] \<and> hd (45 # c # cs) = 45) = True"
    "(45 # c # cs \<noteq> [] \<and> (hd (45 # c # cs) = 43 \<or> hd (45 # c # cs) = 45)) = True"
    "tl (45 # c # cs) = c # cs"
    by simp_all
  have tw: "takeWhile (radixDigit 10) (c # cs) = c # cs"
    using assms by (intro takeWhile_digits) simp
  show ?thesis
    unfolding parseInt_def Let_def S sg nh if_False if_True tw by simp
qed

lemmas eval_ready = ready_page_def stored_page_def audioSettled_def audioTask_def
  onProgress_init_def onGameReady_def refreshTexts_def setRandomText_def falsy_content_def
  GAME_CONFIG_texts_def array_get_def random_index_def no_draws_def js_toString_def
  decimal.simps

lemma ready_page_eval:
  "ready_page v =
     \<lparr> document = game_document, layout = game_layout,
       localStorage = (\<lambda>k. if k = ''count-v2'' then Some v else None),
       arisGameInitialized = False, manager = Some 0,
       count = parseInt (stored_or_zero (Some v)),
       elements = \<lparr> btn = Some 1, counter = Some 2, loading = Some 3,
         texts_of = Some \<lparr> title = Some 4, desc = Some 5, ctDesc = Some 6,
           ctUnit = Some 7 \<rparr> \<rparr>,
       loads = [\<lparr> this = \<lparr> audioCache = [Some (ascii ''data:audio/mpeg;base64,AAAA'')],
                              isReady = True \<rparr>,
                  loadedCount = 2, total = 2,
                  audioTasks = [Fulfilled, Fulfilled], result = Fulfilled,
                  trace = [Fetch (ascii ''audio/1.mp3''), Fetch (ascii ''audio/2.mp3''),
                    ImageSrc (ascii ''img/arisu1.gif''), ImageSrc (ascii ''img/arisu2.gif''),
                    ConsoleError (ascii ''audio/1.mp3''), Progress 1 2, Progress 2 2] \<rparr>],
       effects = [StorageGet ''count-v2'',
         SetInnerText 2 (toLocaleString_enUS (parseInt (stored_or_zero (Some v)))),
         SetInnerText 1 (ascii ''Loading 50%''), SetInnerText 1 (ascii ''Loading 100%''),
         RemoveElem 3, BindOnclick 1,
         SetInnerText 1 [37030, 21345, 21345, 37030, 65281],
         SetInnerText 6 [29233, 20029, 19997, 24050, 32463, 8220, 37030, 21345, 21345,
           37030, 65281, 8221, 20102],
         SetInnerText 7 [27425]] \<rparr>"
  by (simp add: eval_ready eval_init ascii_def)

subsection \<open>The persisted counter\<close>

lemma parseInt_js_toString:
  assumes "within_exact x 0"
  shows "parseInt (js_toString x) = x" and "js_toString x \<noteq> []"
proof -
  have nan: "parseInt (ascii ''NaN'') = NaN" by (simp add: eval_parse Let_def)
  have dec: "parseInt (decimal n) = Num (to_double n)
      \<and> parseInt (45 # decimal n) = Num (to_double (- n))" if "0 \<le> n" for n
  proof -
    from decimal_digits [OF that] obtain c cs where
      "decimal n = c # cs" "is_digit c" "list_all is_digit cs" "mathInt 10 (c # cs) = n"
      by (cases "decimal n") auto
    with parseInt_unsigned [of c cs] parseInt_negative [of c cs] show ?thesis by simp
  qed
  show "parseInt (js_toString x) = x"
  proof (cases x)
    case NaN
    then show ?thesis by (simp add: js_toString_def nan)
  next
    case (Num v)
    with assms have r: "- 9007199254740992 \<le> v" "v \<le> 9007199254740992"
      by (simp_all add: within_exact_def)
    show ?thesis
    proof (cases "v < 0")
      case True
      with dec [of "- v"] r Num show ?thesis by (simp add: js_toString_def to_double_exact)
    next
      case False
      with dec [of v] r Num show ?thesis by (simp add: js_toString_def to_double_exact)
    qed
  qed
  have "decimal n \<noteq> []" for n by (subst decimal.simps) simp
  then show "js_toString x \<noteq> []"
    by (cases x) (simp_all add: js_toString_def ascii_def)
qed

lemma within_exact_plus: "within_exact x n \<Longrightarrow> within_exact (js_plus x n) 0"
  by (cases x) (simp_all add: within_exact_def js_plus_def)

text \<open>
  C1, amended. Let the counter be \<open>NaN\<close> or an integer \<open>v\<close> with \<open>- 2 ^ 53 \<le> v\<close> and
  \<open>v + N \<le> 2 ^ 53\<close>. After any \<open>N\<close> interactions the counter is the old counter plus \<open>N\<close>;
  for \<open>N > 0\<close> the \<open>count-v2\<close> slot holds the string of that number; when the counter
  started as the value \<open>init\<close> reads from the slot, reading the slot again gives the old
  counter plus \<open>N\<close>; the run wrote the slot \<open>N\<close> times, with the successive values; and
  every single interaction, from any state, writes the slot exactly once.
\<close>

theorem interactions_persist_counter:
  assumes "within_exact (count s) (length eds)"
  shows "count (interactions eds s) = js_plus (count s) (length eds)
       \<and> (eds \<noteq> [] \<longrightarrow> localStorage (interactions eds s) ''count-v2''
             = Some (js_toString (js_plus (count s) (length eds))))
       \<and> (count s = parseInt (stored_or_zero (localStorage s ''count-v2'')) \<longrightarrow>
            parseInt (stored_or_zero (localStorage (interactions eds s) ''count-v2''))
              = js_plus (count s) (length eds))
       \<and> storage_writes ''count-v2'' (effects (interactions eds s))
           = storage_writes ''count-v2'' (effects s)
             @ map (\<lambda>i. js_toString (js_plus (count s) (Suc i))) [0..<length eds]
       \<and> length (storage_writes ''count-v2'' (effects (interactions eds s)))
           = length (storage_writes ''count-v2'' (effects s)) + length eds
       \<and> (\<forall>e d t. length (storage_writes ''count-v2''
                      (effects (state_of (handleInteraction e d t))))
             = length (storage_writes ''count-v2'' (effects t)) + 1)"
proof -
  note ic = interactions_counter [OF assms]
  have rt: "parseInt (js_toString (js_plus (count s) (length eds))) = js_plus (count s) (length eds)"
    "js_toString (js_plus (count s) (length eds)) \<noteq> []"
    using parseInt_js_toString [OF within_exact_plus [OF assms]] by simp_all
  have readback: "parseInt (stored_or_zero (localStorage (interactions eds s) ''count-v2''))
              = js_plus (count s) (length eds)"
    if "count s = parseInt (stored_or_zero (localStorage s ''count-v2''))"
  proof (cases eds)
    case Nil
    with that show ?thesis by (simp add: js_plus_def split: jsnum.splits)
  next
    case (Cons a list)
    with ic have "localStorage (interactions eds s) ''count-v2''
             = Some (js_toString (js_plus (count s) (length eds)))" by simp
    with rt show ?thesis by (simp add: stored_or_zero_def)
  qed
  have len: "length (storage_writes ''count-v2'' (effects (interactions eds s)))
           = length (storage_writes ''count-v2'' (effects s)) + length eds"
    using ic by simp
  have one: "\<forall>e d t. length (storage_writes ''count-v2''
                      (effects (state_of (handleInteraction e d t))))
             = length (storage_writes ''count-v2'' (effects t)) + 1"
    by (simp add: handleInteraction_counter)
  from ic readback len one show ?thesis by blast
qed

lemma parse_examples:
  "parseInt (stored_or_zero (Some (ascii ''9007199254740992''))) = Num 9007199254740992"
  "parseInt (stored_or_zero (Some (ascii ''41''))) = Num 41"
  by (simp_all add: eval_parse Let_def)

lemma toString_examples:
  "js_toString (Num 9007199254740992) = ascii ''9007199254740992''"
  "js_toString (Num 9007199254740993) = ascii ''9007199254740993''"
  "js_toString (Num 42) = ascii ''42''"
  "js_toString (Num 43) = ascii ''43''"
  by (simp_all add: js_toString_def decimal.simps ascii_def)

text \<open>
  C1, as stated, fails at the end of the doubles' contiguous integers: with
  \<open>9007199254740992\<close> (\<open>2 ^ 53\<close>) in the slot, the ready page's counter is that number,
  \<open>this.count++\<close> leaves it unchanged, and after one interaction the slot holds
  \<open>9007199254740992\<close> again, not the string of the counter plus one.
\<close>

theorem interactions_persist_counter_counterexample:
  "count (ready_page (ascii ''9007199254740992''))
     = parseInt (stored_or_zero
         (localStorage (ready_page (ascii ''9007199254740992'')) ''count-v2''))
   \<and> count (ready_page (ascii ''9007199254740992'')) = Num 9007199254740992
   \<and> js_plus (count (ready_page (ascii ''9007199254740992''))) 1 = Num 9007199254740993
   \<and> localStorage
        (interactions [(\<lparr> clientX = 180, clientY = 70 \<rparr>, no_draws)]
          (ready_page (ascii ''9007199254740992''))) ''count-v2''
       = Some (ascii ''9007199254740992'')
   \<and> localStorage
        (interactions [(\<lparr> clientX = 180, clientY = 70 \<rparr>, no_draws)]
          (ready_page (ascii ''9007199254740992''))) ''count-v2''
       \<noteq> Some (js_toString (js_plus (count (ready_page (ascii ''9007199254740992''))) 1))"
proof -
  let ?p = "ready_page (ascii ''9007199254740992'')"
  have c: "count ?p = Num 9007199254740992"
    by (simp add: ready_page_eval parse_examples)
  have l: "localStorage ?p ''count-v2'' = Some (ascii ''9007199254740992'')"
    by (simp add: ready_page_eval)
  have i: "js_incr (Num 9007199254740992) = Num 9007199254740992"
    by (simp add: js_incr_def to_double_def Let_def expo.simps)
  have a: "localStorage (interactions [(\<lparr> clientX = 180, clientY = 70 \<rparr>, no_draws)] ?p)
      ''count-v2'' = Some (ascii ''9007199254740992'')"
    by (simp add: handleInteraction_counter c i toString_examples)
  have ne: "ascii ''9007199254740992'' \<noteq> ascii ''9007199254740993''"
    by (simp add: ascii_def)
  have p1: "js_plus (count ?p) 1 = Num 9007199254740993"
    by (simp add: c js_plus_def)
  show ?thesis
    unfolding a p1 toString_examples l unfolding c
    using ne by (simp add: parse_examples)
qed

theorem interactions_persist_counter_witness:
  "count (interactions [(\<lparr> clientX = 180, clientY = 70 \<rparr>, no_draws),
                        (\<lparr> clientX = 181, clientY = 71 \<rparr>, no_draws)]
            (ready_page (ascii ''41''))) = Num 43
   \<and> localStorage
        (interactions [(\<lparr> clientX = 180, clientY = 70 \<rparr>, no_draws),
                       (\<lparr> clientX = 181, clientY = 71 \<rparr>, no_draws)]
          (ready_page (ascii ''41''))) ''count-v2'' = Some (ascii ''43'')
   \<and> parseInt (stored_or_zero (localStorage
        (interactions [(\<lparr> clientX = 180, clientY = 70 \<rparr>, no_draws),
                       (\<lparr> clientX = 181, clientY = 71 \<rparr>, no_draws)]
          (ready_page (ascii ''41''))) ''count-v2'')) = Num 43
   \<and> storage_writes ''count-v2''
        (effects (interactions [(\<lparr> clientX = 180, clientY = 70 \<rparr>, no_draws),
                                (\<lparr> clientX = 181, clientY = 71 \<rparr>, no_draws)]
                   (ready_page (ascii ''41'')))) = [ascii ''42'', ascii ''43'']"
proof -
  let ?p = "ready_page (ascii ''41'')"
  let ?eds = "[(\<lparr> clientX = 180, clientY = 70 \<rparr>, no_draws),
               (\<lparr> clientX = 181, clientY = 71 \<rparr>, no_draws)]"
  have c: "count ?p = Num 41" by (simp add: ready_page_eval parse_examples)
  have w: "within_exact (count ?p) (length ?eds)" by (simp add: c within_exact_def)
  have r: "count ?p = parseInt (stored_or_zero (localStorage ?p ''count-v2''))"
    by (simp add: ready_page_eval)
  have e: "storage_writes ''count-v2'' (effects ?p) = []"
    by (simp add: ready_page_eval storage_writes_def)
  have u: "[0..<length ?eds] = [0, 1]" by (simp add: upt_rec)
  note t = interactions_persist_counter [OF w]
  from t r have "parseInt (stored_or_zero (localStorage (interactions ?eds ?p) ''count-v2''))
      = js_plus (count ?p) (length ?eds)"
    by blast
  with t show ?thesis unfolding e u c by (simp add: js_plus_def toString_examples)
qed

subsection \<open>The batch of audio tasks\<close>

lemma join_fields:
  "loadedCount (join c) = loadedCount c" "total (join c) = total c"
  "audioTasks (join c) = audioTasks c" "trace (join c) = trace c"
  "audioCache (this (join c)) = audioCache (this c)"
  by (simp_all add: join_def)

lemma join_result:
  "result (join c) =
     (if result c \<noteq> Pending then result c
      else if Rejected \<in> set (audioTasks c) then Rejected
      else if list_all (\<lambda>t. t = Fulfilled) (audioTasks c) then Fulfilled else Pending)"
  "isReady (this (join c)) =
     (isReady (this c) \<or> (result c = Pending \<and> Rejected \<notin> set (audioTasks c)
        \<and> list_all (\<lambda>t. t = Fulfilled) (audioTasks c)))"
  by (auto simp: join_def)

lemma run_loadAll_append:
  "run_loadAll cfg cb (es @ es') cw = run_loadAll cfg cb es' (run_loadAll cfg cb es cw)"
  by (induction cfg cb es cw rule: run_loadAll.induct) simp_all

lemma audio_settled_append: "audio_settled (es @ es') = audio_settled es @ audio_settled es'"
  by (induction es rule: audio_settled.induct) simp_all

lemma pushed_results_append:
  "pushed_results (es @ es') = pushed_results es @ pushed_results es'"
  by (induction es rule: pushed_results.induct) simp_all



lemma failed_tasks_append: "failed_tasks (es @ es') = failed_tasks es @ failed_tasks es'"
  by (induction es rule: failed_tasks.induct) simp_all

lemma progress_calls_append:
  "progress_calls (t @ t') = progress_calls t @ progress_calls t'"
  by (induction t rule: progress_calls.induct) simp_all

lemma console_errors_append:
  "console_errors (t @ t') = console_errors t @ console_errors t'"
  by (induction t rule: console_errors.induct) simp_all

lemma run_loadAll_images:
  "run_loadAll cfg cb (filter is_audio es) cw = run_loadAll cfg cb es cw"
  by (induction cfg cb es cw rule: run_loadAll.induct) (simp_all add: imageDone_def)

text \<open>One audio task that is still pending settles.\<close>

lemma audioTask_step:
  fixes f :: "nat \<Rightarrow> nat \<Rightarrow> 'w \<Rightarrow> 'w completion" and w :: 'w and oc :: outcome
  assumes "i < length (audioTasks c)" "i < length (audioList cfg)" "audioTasks c ! i = Pending"
  defines "c' \<equiv> fst (audioTask cfg (Some f) i oc (c, w))"
  shows "loadedCount c' = loadedCount c + 1"
    and "total c' = total c"
    and "audioTasks c' = (audioTasks c)
           [i := if returned (f (loadedCount c + 1) (total c) w) then Fulfilled else Rejected]"
    and "audioCache (this c') = audioCache (this c) @ pushed_results [AudioSettles i oc]"
    and "progress_calls (trace c') = progress_calls (trace c) @ [(loadedCount c + 1, total c)]"
    and "console_errors (trace c')
           = console_errors (trace c) @ map (\<lambda>i. audioList cfg ! i) (failed_tasks [AudioSettles i oc])"
    and "snd (audioTask cfg (Some f) i oc (c, w)) = state_of (f (loadedCount c + 1) (total c) w)"
  using assms(1-3) unfolding c'_def
  by (auto simp: audioTask_def Let_def join_fields progress_calls_append console_errors_append
      split: outcome.splits completion.splits)

lemma audioTask_step_result:
  fixes f :: "nat \<Rightarrow> nat \<Rightarrow> 'w \<Rightarrow> 'w completion" and w :: 'w and oc :: outcome
  assumes "i < length (audioTasks c)" "i < length (audioList cfg)" "audioTasks c ! i = Pending"
    and "returned (f (loadedCount c + 1) (total c) w)" "result c = Pending"
    and "Rejected \<notin> set (audioTasks c)"
  defines "c' \<equiv> fst (audioTask cfg (Some f) i oc (c, w))"
  shows "result c' = (if list_all (\<lambda>t. t = Fulfilled) ((audioTasks c)[i := Fulfilled])
                      then Fulfilled else Pending)"
    and "isReady (this c') = (isReady (this c)
           \<or> list_all (\<lambda>t. t = Fulfilled) ((audioTasks c)[i := Fulfilled]))"
proof -
  have nr: "Rejected \<notin> set ((audioTasks c)[i := Fulfilled])"
    using assms(6) by (auto dest!: set_update_subset_insert [THEN subsetD])
  from assms(4) obtain w' where "f (loadedCount c + 1) (total c) w = Returned w'"
    by (cases "f (loadedCount c + 1) (total c) w") auto
  with assms(1-3,5) nr show "result c' = (if list_all (\<lambda>t. t = Fulfilled) ((audioTasks c)[i := Fulfilled])
                      then Fulfilled else Pending)"
    and "isReady (this c') = (isReady (this c)
           \<or> list_all (\<lambda>t. t = Fulfilled) ((audioTasks c)[i := Fulfilled]))"
    unfolding c'_def by (auto simp: audioTask_def Let_def join_result split: outcome.splits)
qed

lemma loadAll_start:
  "loadedCount (loadAll cfg m) = 0" "total (loadAll cfg m) = length (audioList cfg)"
  "audioTasks (loadAll cfg m) = replicate (length (audioList cfg)) Pending"
  "audioCache (this (loadAll cfg m)) = audioCache m"
  "progress_calls (trace (loadAll cfg m)) = []"
  "console_errors (trace (loadAll cfg m)) = []"
  "result (loadAll cfg m) = (if audioList cfg = [] then Fulfilled else Pending)"
  "isReady (this (loadAll cfg m)) = (isReady m \<or> audioList cfg = [])"
proof -
  have p: "progress_calls (map Fetch xs @ map ImageSrc ys) = []" for xs ys
    by (induction xs) (simp_all, induction ys, simp_all)
  have q: "console_errors (map Fetch xs @ map ImageSrc ys) = []" for xs ys
    by (induction xs) (simp_all, induction ys, simp_all)
  have r: "list_all (\<lambda>t. t = Fulfilled) (replicate n Pending) \<longleftrightarrow> n = 0" for n
    by (cases n) simp_all
  show "loadedCount (loadAll cfg m) = 0" "total (loadAll cfg m) = length (audioList cfg)"
    "audioTasks (loadAll cfg m) = replicate (length (audioList cfg)) Pending"
    "audioCache (this (loadAll cfg m)) = audioCache m"
    by (simp_all add: loadAll_def join_fields)
  show "progress_calls (trace (loadAll cfg m)) = []" "console_errors (trace (loadAll cfg m)) = []"
    by (simp_all add: loadAll_def join_fields p q)
  show "result (loadAll cfg m) = (if audioList cfg = [] then Fulfilled else Pending)"
    "isReady (this (loadAll cfg m)) = (isReady m \<or> audioList cfg = [])"
    by (simp_all add: loadAll_def join_result r)
qed

lemma run_loadAll_counts:
  fixes f :: "nat \<Rightarrow> nat \<Rightarrow> 'w \<Rightarrow> 'w completion" and w0 :: 'w and m :: ResourceManager
  assumes "distinct (audio_settled es)"
    and "set (audio_settled es) \<subseteq> {..<length (audioList cfg)}"
  defines "c \<equiv> fst (run_loadAll cfg (Some f) es (loadAll cfg m, w0))"
  shows "total c = length (audioList cfg) \<and> length (audioTasks c) = length (audioList cfg)
       \<and> loadedCount c = length (audio_settled es)
       \<and> (\<forall>i < length (audioList cfg).
             (audioTasks c ! i = Pending) = (i \<notin> set (audio_settled es)))
       \<and> audioCache (this c) = audioCache m @ pushed_results es
       \<and> progress_calls (trace c)
           = map (\<lambda>k. (Suc k, length (audioList cfg))) [0..<length (audio_settled es)]
       \<and> console_errors (trace c) = map (\<lambda>i. audioList cfg ! i) (failed_tasks es)"
  using assms(1,2) unfolding c_def
proof (induction es rule: rev_induct)
  case Nil
  then show ?case by (simp add: loadAll_start)
next
  case (snoc e es)
  define cw where "cw = run_loadAll cfg (Some f) es (loadAll cfg m, w0)"
  from snoc.prems have d: "distinct (audio_settled es)"
    and sub: "set (audio_settled es) \<subseteq> {..<length (audioList cfg)}"
    by (simp_all add: audio_settled_append)
  note ih = snoc.IH [OF d sub, folded cw_def]
  show ?case
  proof (cases e)
    case (ImageSettles j ok)
    then show ?thesis
      using ih by (simp add: run_loadAll_append cw_def [symmetric] imageDone_def
          audio_settled_append pushed_results_append failed_tasks_append)
  next
    case (AudioSettles i oc)
    with snoc.prems have i: "i \<notin> set (audio_settled es)" "i < length (audioList cfg)"
      by (simp_all add: audio_settled_append)
    with ih have p: "i < length (audioTasks (fst cw))" "audioTasks (fst cw) ! i = Pending"
      by simp_all
    note st = audioTask_step [OF p(1) i(2) p(2), of f oc "snd cw"]
    have r: "run_loadAll cfg (Some f) (es @ [e]) (loadAll cfg m, w0)
        = audioTask cfg (Some f) i oc (fst cw, snd cw)"
      by (simp add: run_loadAll_append cw_def AudioSettles)
    have fl: "failed_tasks (es @ [e]) = failed_tasks es @ failed_tasks [AudioSettles i oc]"
      "pushed_results (es @ [e]) = pushed_results es @ pushed_results [AudioSettles i oc]"
      "audio_settled (es @ [e]) = audio_settled es @ [i]"
      by (simp_all add: failed_tasks_append pushed_results_append audio_settled_append
          AudioSettles)
    have t: "\<forall>j < length (audioList cfg).
        ((audioTasks (fst cw))
           [i := if returned (f (loadedCount (fst cw) + 1) (total (fst cw)) (snd cw))
                 then Fulfilled else Rejected] ! j = Pending)
        = (j \<notin> set (audio_settled es @ [i]))"
      using ih p(1) by (auto simp: nth_list_update)
    show ?thesis
      unfolding r fl st using ih t by simp
  qed
qed

lemma all_fulfilled_iff:
  assumes "length ts = n" "\<forall>j < n. ts ! j = (if j \<in> A then Fulfilled else Pending)"
    and "A \<subseteq> {..<n}"
  shows "list_all (\<lambda>t. t = Fulfilled) ts \<longleftrightarrow> A = {..<n}"
proof
  assume a: "list_all (\<lambda>t. t = Fulfilled) ts"
  have "j \<in> A" if "j < n" for j
  proof -
    from a that assms(1) have "ts ! j = Fulfilled" by (simp add: list_all_length)
    with assms(2) that show ?thesis by (auto split: if_splits)
  qed
  with assms(3) show "A = {..<n}" by auto
next
  assume "A = {..<n}"
  with assms(1,2) show "list_all (\<lambda>t. t = Fulfilled) ts" by (simp add: list_all_length)
qed

lemma audioTask_step_join:
  fixes f :: "nat \<Rightarrow> nat \<Rightarrow> 'w \<Rightarrow> 'w completion" and w :: 'w and oc :: outcome
  assumes "i < length (audioTasks c)" "i < length (audioList cfg)" "audioTasks c ! i = Pending"
  defines "c' \<equiv> fst (audioTask cfg (Some f) i oc (c, w))"
    and "T \<equiv> (audioTasks c)
           [i := if returned (f (loadedCount c + 1) (total c) w) then Fulfilled else Rejected]"
  shows "result c' =
           (if result c \<noteq> Pending then result c
            else if Rejected \<in> set T then Rejected
            else if list_all (\<lambda>t. t = Fulfilled) T then Fulfilled else Pending)"
    and "isReady (this c') =
           (isReady (this c) \<or> (result c = Pending \<and> Rejected \<notin> set T
              \<and> list_all (\<lambda>t. t = Fulfilled) T))"
  using assms(1-3) unfolding c'_def T_def
  by (auto simp: audioTask_def Let_def join_result split: outcome.splits completion.splits)

lemma calls_returned_append:
  "calls_returned cfg f (es @ es') cw
     = (calls_returned cfg f es cw \<and> calls_returned cfg f es' (run_loadAll cfg (Some f) es cw))"
  by (induction cfg f es cw rule: calls_returned.induct) auto

lemma run_loadAll_result:
  fixes f :: "nat \<Rightarrow> nat \<Rightarrow> 'w \<Rightarrow> 'w completion" and w0 :: 'w and m :: ResourceManager
  assumes "distinct (audio_settled es)"
    and "set (audio_settled es) \<subseteq> {..<length (audioList cfg)}"
  defines "c \<equiv> fst (run_loadAll cfg (Some f) es (loadAll cfg m, w0))"
    and "cr \<equiv> calls_returned cfg f es (loadAll cfg m, w0)"
  shows "(cr \<longrightarrow> (\<forall>i < length (audioList cfg).
            audioTasks c ! i = (if i \<in> set (audio_settled es) then Fulfilled else Pending)))
       \<and> result c = (if \<not> cr then Rejected
                      else if set (audio_settled es) = {..<length (audioList cfg)}
                      then Fulfilled else Pending)
       \<and> isReady (this c)
           = (isReady m \<or> (cr \<and> set (audio_settled es) = {..<length (audioList cfg)}))"
  using assms(1,2) unfolding c_def cr_def
proof (induction es rule: rev_induct)
  case Nil
  have "({} = {..<length (audioList cfg)}) = (audioList cfg = [])" by auto
  then show ?case by (simp add: loadAll_start)
next
  case (snoc e es)
  let ?n = "length (audioList cfg)"
  define cw where "cw = run_loadAll cfg (Some f) es (loadAll cfg m, w0)"
  define cr where "cr = calls_returned cfg f es (loadAll cfg m, w0)"
  from snoc.prems have d: "distinct (audio_settled es)"
    and sub: "set (audio_settled es) \<subseteq> {..<?n}"
    by (simp_all add: audio_settled_append)
  note ih = snoc.IH [OF d sub, folded cw_def cr_def]
  note cnt = run_loadAll_counts [OF d sub, of f m w0, folded cw_def]
  show ?case
  proof (cases e)
    case (ImageSettles j ok)
    then show ?thesis
      using ih by (simp add: run_loadAll_append calls_returned_append cw_def [symmetric]
          cr_def [symmetric] imageDone_def audio_settled_append)
  next
    case (AudioSettles i oc)
    with snoc.prems have i: "i \<notin> set (audio_settled es)" "i < ?n"
      and sub': "set (audio_settled es @ [i]) \<subseteq> {..<?n}"
      by (simp_all add: audio_settled_append)
    from cnt i have p: "i < length (audioTasks (fst cw))" "audioTasks (fst cw) ! i = Pending"
      by simp_all
    from i sub have ne: "set (audio_settled es) \<noteq> {..<?n}" by auto
    define rt where "rt = returned (f (loadedCount (fst cw) + 1) (total (fst cw)) (snd cw))"
    define T where "T = (audioTasks (fst cw))[i := if rt then Fulfilled else Rejected]"
    note st = audioTask_step(3) [where f = f and w = "snd cw" and c = "fst cw" and i = i
        and cfg = cfg and oc = oc, OF p(1) i(2) p(2), folded rt_def T_def]
    note sj = audioTask_step_join [where f = f and w = "snd cw" and c = "fst cw" and i = i
        and cfg = cfg and oc = oc, OF p(1) i(2) p(2), folded rt_def T_def]
    have r: "run_loadAll cfg (Some f) (es @ [e]) (loadAll cfg m, w0)
        = audioTask cfg (Some f) i oc (fst cw, snd cw)"
      by (simp add: run_loadAll_append cw_def AudioSettles)
    have as: "audio_settled (es @ [e]) = audio_settled es @ [i]"
      by (simp add: audio_settled_append AudioSettles)
    have cr': "calls_returned cfg f (es @ [e]) (loadAll cfg m, w0) = (cr \<and> rt)"
      using p i(2) by (simp add: calls_returned_append AudioSettles cw_def [symmetric]
          cr_def [symmetric] rt_def)
    have len: "length T = ?n" using cnt by (simp add: T_def)
    show ?thesis
    proof (cases "cr \<and> rt")
      case True
      then have T: "T = (audioTasks (fst cw))[i := Fulfilled]" by (simp add: T_def)
      from True ih ne have rp: "result (fst cw) = Pending" by simp
      have t: "\<forall>j < ?n. T ! j = (if j \<in> set (audio_settled es @ [i]) then Fulfilled else Pending)"
        using ih True p(1) unfolding T by (auto simp: nth_list_update)
      have nr: "Rejected \<notin> set T"
      proof
        assume "Rejected \<in> set T"
        then obtain j where "j < length T" "T ! j = Rejected" by (auto simp: in_set_conv_nth)
        with len t show False by (auto split: if_splits)
      qed
      note af = all_fulfilled_iff [OF len t sub']
      show ?thesis
        unfolding r as cr' st sj fst_conv using True t rp nr ih ne by (simp add: af)
    next
      case False
      have rej: "result (fst (audioTask cfg (Some f) i oc (fst cw, snd cw))) = Rejected"
      proof (cases cr)
        case True
        with False have "\<not> rt" by simp
        then have "T ! i = Rejected" using p(1) by (simp add: T_def)
        then have "Rejected \<in> set T" using p(1) by (metis T_def length_list_update nth_mem)
        moreover from True ih ne have "result (fst cw) = Pending" by simp
        ultimately show ?thesis unfolding sj by simp
      next
        case False
        with ih have "result (fst cw) = Rejected" by simp
        then show ?thesis unfolding sj by simp
      qed
      have rdy: "isReady (this (fst (audioTask cfg (Some f) i oc (fst cw, snd cw))))
          = isReady m"
      proof (cases cr)
        case True
        with False have "\<not> rt" by simp
        then have "T ! i = Rejected" using p(1) by (simp add: T_def)
        then have "Rejected \<in> set T" using p(1) by (metis T_def length_list_update nth_mem)
        with True ih ne show ?thesis unfolding sj by simp
      next
        case False
        with ih show ?thesis unfolding sj by simp
      qed
      from False rej rdy show ?thesis unfolding r as cr' by auto
    qed
  qed
qed

lemma join_same:
  assumes "same_progress c c'"
  shows "same_progress (join c) (join c')"
  using assms by (simp add: same_progress_def join_fields join_result)




lemma settled_bound:
  assumes "distinct xs" "set xs \<subseteq> {..<n::nat}"
  shows "length xs \<le> n" and "set xs = {..<n} \<Longrightarrow> length xs = n"
proof -
  from assms(1) have c: "card (set xs) = length xs" by (rule distinct_card)
  from assms(2) have "card (set xs) \<le> card {..<n}" by (intro card_mono) simp_all
  with c show "length xs \<le> n" by simp
  assume "set xs = {..<n}"
  with c show "length xs = n" by simp
qed


text \<open>
  C2, amended. Take any schedule in which each audio task settles at most once. The
  calls of \<open>onProgress\<close> are \<open>(1, total), (2, total), ...\<close>, one for each audio task that
  has settled, whatever the callback does; so exactly \<open>total\<close> calls, counting from 1 to
  \<open>total\<close>, when every task has settled. If the callback returned normally each time it
  was called in the run, the promise of \<open>loadAll\<close> is fulfilled, and the readiness flag
  set, exactly when every audio task has settled; if one of its calls threw, the
  promise is rejected and the flag is left as it was. Completions of images change
  nothing.
\<close>

theorem loadAll_resolves_when_settled:
  fixes f :: "nat \<Rightarrow> nat \<Rightarrow> 'w \<Rightarrow> 'w completion" and w0 :: 'w and m :: ResourceManager
  assumes "distinct (audio_settled es)"
    and "set (audio_settled es) \<subseteq> {..<length (audioList cfg)}"
  defines "c \<equiv> fst (run_loadAll cfg (Some f) es (loadAll cfg m, w0))"
  shows "progress_calls (trace c)
           = map (\<lambda>k. (Suc k, length (audioList cfg))) [0..<length (audio_settled es)]
       \<and> (set (audio_settled es) = {..<length (audioList cfg)} \<longrightarrow>
            progress_calls (trace c)
              = map (\<lambda>k. (Suc k, length (audioList cfg))) [0..<length (audioList cfg)])
       \<and> (calls_returned cfg f es (loadAll cfg m, w0) \<longrightarrow>
            (result c = Fulfilled \<longleftrightarrow> set (audio_settled es) = {..<length (audioList cfg)})
            \<and> (isReady (this c)
                 \<longleftrightarrow> isReady m \<or> set (audio_settled es) = {..<length (audioList cfg)}))
       \<and> (\<not> calls_returned cfg f es (loadAll cfg m, w0) \<longrightarrow>
            result c = Rejected \<and> (isReady (this c) \<longleftrightarrow> isReady m))
       \<and> run_loadAll cfg (Some f) (filter is_audio es) (loadAll cfg m, w0)
           = run_loadAll cfg (Some f) es (loadAll cfg m, w0)"
proof -
  note cnt = run_loadAll_counts [OF assms(1,2), of f m w0, folded c_def]
  note res = run_loadAll_result [OF assms(1,2), of f m w0, folded c_def]
  have 1: "progress_calls (trace c)
           = map (\<lambda>k. (Suc k, length (audioList cfg))) [0..<length (audio_settled es)]"
    using cnt by simp
  have 2: "progress_calls (trace c)
              = map (\<lambda>k. (Suc k, length (audioList cfg))) [0..<length (audioList cfg)]"
    if "set (audio_settled es) = {..<length (audioList cfg)}"
    using 1 settled_bound(2) [OF assms(1,2) that] by simp
  have 3: "(result c = Fulfilled \<longleftrightarrow> set (audio_settled es) = {..<length (audioList cfg)})
            \<and> (isReady (this c)
                 \<longleftrightarrow> isReady m \<or> set (audio_settled es) = {..<length (audioList cfg)})"
    if "calls_returned cfg f es (loadAll cfg m, w0)"
    using res that by simp
  have 4: "result c = Rejected \<and> (isReady (this c) \<longleftrightarrow> isReady m)"
    if "\<not> calls_returned cfg f es (loadAll cfg m, w0)"
    using res that by simp
  from 1 2 3 4 run_loadAll_images [of cfg "Some f" es "(loadAll cfg m, w0)"]
  show ?thesis by blast
qed


lemma left_while_loading_eval:
  "loads left_while_loading =
     [\<lparr> this = \<lparr> audioCache = [Some (ascii ''data:audio/mpeg;base64,AAAA''),
                                 Some (ascii ''data:audio/mpeg;base64,BBBB'')],
                  isReady = False \<rparr>,
        loadedCount = 2, total = 2, audioTasks = [Rejected, Rejected], result = Rejected,
        trace = [Fetch (ascii ''audio/1.mp3''), Fetch (ascii ''audio/2.mp3''),
          ImageSrc (ascii ''img/arisu1.gif''), ImageSrc (ascii ''img/arisu2.gif''),
          Progress 1 2, Progress 2 2] \<rparr>]"
proof -
  have d: "document navigated_page ''counter-button'' = None"
    by (simp add: navigated_page_def other_document_def)
  have i: "init navigated_page = navigated_page\<lparr>elements := lookup_handles navigated_page\<rparr>"
    by (rule init_absent [OF d])
  show ?thesis
    unfolding left_while_loading_def i
    by (simp add: navigated_page_def init_fresh_page lookup_handles_def other_document_def
        audioSettled_def audioTask_def onProgress_init_def join_def GAME_CONFIG_def Let_def)
qed

text \<open>
  C2, as stated, fails when the callback throws. \<open>init\<close>'s callback reads the button
  handle when it is called; after a navigation to a page without the game it throws in
  \<open>finally\<close>. Both audio tasks of the first call have then settled, the callback was
  called twice, and the promise of \<open>loadAll\<close> is rejected, with the readiness flag false.
\<close>

theorem loadAll_resolves_when_settled_counterexample:
  "audioTasks (loads left_while_loading ! 0) = [Rejected, Rejected]
   \<and> loadedCount (loads left_while_loading ! 0) = total (loads left_while_loading ! 0)
   \<and> result (loads left_while_loading ! 0) = Rejected
   \<and> result (loads left_while_loading ! 0) \<noteq> Fulfilled
   \<and> \<not> isReady (this (loads left_while_loading ! 0))"
  by (simp add: left_while_loading_eval)

lemmas eval_batch = audioTask_def join_def loadAll_def GAME_CONFIG_def onProgress_init_def
  emit_def ResourceManager_new_def Let_def imageDone_def

lemma btn_examples:
  "btn (elements (init fresh_page)) = Some 1" "btn (elements (init navigated_page)) = None"
proof -
  show "btn (elements (init fresh_page)) = Some 1" by (simp add: init_fresh_page)
  have d: "document navigated_page ''counter-button'' = None"
    by (simp add: navigated_page_def other_document_def)
  show "btn (elements (init navigated_page)) = None"
    by (simp add: init_absent [OF d] lookup_handles_def d)
qed

lemma onProgress_init_returned: "returned (onProgress_init k t s) \<longleftrightarrow> btn (elements s) \<noteq> None"
  by (simp add: onProgress_init_def Let_def split: option.splits)

lemma onProgress_init_btn: "btn (elements (state_of (onProgress_init k t s))) = btn (elements s)"
  by (simp add: onProgress_init_def Let_def emit_def split: option.splits)

lemma audioTask_init_btn:
  "btn (elements (snd (audioTask cfg (Some onProgress_init) i oc (c, s)))) = btn (elements s)"
  by (simp add: audioTask_def Let_def onProgress_init_def emit_def
      split: option.splits outcome.splits)

lemma calls_returned_init:
  "calls_returned GAME_CONFIG onProgress_init second_first
     (loadAll GAME_CONFIG ResourceManager_new, init fresh_page)"
  "\<not> calls_returned GAME_CONFIG onProgress_init second_first
     (loadAll GAME_CONFIG ResourceManager_new, init navigated_page)"
  "calls_returned GAME_CONFIG onProgress_init first_fails
     (loadAll GAME_CONFIG ResourceManager_new, init fresh_page)"
  "\<not> calls_returned GAME_CONFIG onProgress_init first_fails
     (loadAll GAME_CONFIG ResourceManager_new, init navigated_page)"
  by (simp_all add: second_first_def first_fails_def onProgress_init_returned btn_examples
      imageDone_def audioTask_init_btn onProgress_init_btn
      join_fields loadAll_start GAME_CONFIG_def audioTask_step [where f = onProgress_init])

lemma schedule_examples:
  "length (audioList GAME_CONFIG) = 2"
  "audio_settled second_first = [1, 0]" "audio_settled first_fails = [0, 1]"
  "audio_settled read_fails = [0, 1]"
  "[0..<2] = [0, Suc 0]"
  "audioList GAME_CONFIG ! 0 = ascii ''audio/1.mp3''"
  "audioList GAME_CONFIG ! Suc 0 = ascii ''audio/2.mp3''"
  by (auto simp: GAME_CONFIG_def second_first_def first_fails_def read_fails_def upt_rec)

theorem loadAll_resolves_when_settled_witness:
  "progress_calls (trace (fst (run_loadAll GAME_CONFIG (Some onProgress_init) second_first
      (loadAll GAME_CONFIG ResourceManager_new, init fresh_page)))) = [(1, 2), (2, 2)]
   \<and> result (fst (run_loadAll GAME_CONFIG (Some onProgress_init) second_first
      (loadAll GAME_CONFIG ResourceManager_new, init fresh_page))) = Fulfilled
   \<and> isReady (this (fst (run_loadAll GAME_CONFIG (Some onProgress_init) second_first
      (loadAll GAME_CONFIG ResourceManager_new, init fresh_page))))
   \<and> result (fst (run_loadAll GAME_CONFIG (Some onProgress_init) second_first
      (loadAll GAME_CONFIG ResourceManager_new, init navigated_page))) = Rejected"
proof -
  have d: "distinct (audio_settled second_first)" by (simp add: schedule_examples)
  have b: "set (audio_settled second_first) \<subseteq> {..<length (audioList GAME_CONFIG)}"
    by (simp add: schedule_examples)
  have a: "set (audio_settled second_first) = {..<length (audioList GAME_CONFIG)}"
    by (auto simp: schedule_examples(1,2) less_Suc_eq numeral_2_eq_2)
  note t1 = loadAll_resolves_when_settled [OF d b, of onProgress_init ResourceManager_new
      "init fresh_page"]
  note t2 = loadAll_resolves_when_settled [OF d b, of onProgress_init ResourceManager_new
      "init navigated_page"]
  from t1 a have 1: "progress_calls (trace (fst (run_loadAll GAME_CONFIG (Some onProgress_init)
      second_first (loadAll GAME_CONFIG ResourceManager_new, init fresh_page))))
      = map (\<lambda>k. (Suc k, length (audioList GAME_CONFIG))) [0..<length (audioList GAME_CONFIG)]"
    by blast
  from t1 a calls_returned_init(1)
  have 2: "result (fst (run_loadAll GAME_CONFIG (Some onProgress_init) second_first
      (loadAll GAME_CONFIG ResourceManager_new, init fresh_page))) = Fulfilled"
    and 3: "isReady (this (fst (run_loadAll GAME_CONFIG (Some onProgress_init) second_first
      (loadAll GAME_CONFIG ResourceManager_new, init fresh_page))))"
    by blast+
  from t2 calls_returned_init(2)
  have 4: "result (fst (run_loadAll GAME_CONFIG (Some onProgress_init) second_first
      (loadAll GAME_CONFIG ResourceManager_new, init navigated_page))) = Rejected"
    by blast
  from 1 2 3 4 show ?thesis by (simp add: schedule_examples(1,5))
qed



subsection \<open>Random audio\<close>








subsection \<open>The ripple\<close>
























end
